theory Spec2Isabelle
  imports Complex_Main "HOL-Library.Sublist" "HOL-Library.Multiset"
begin

section \<open>Python strings\<close>

text \<open>
  A Python \<^verbatim>\<open>str\<close> is a sequence of Unicode code points, modelled as a list of
  natural numbers. \<open>lit\<close> turns a literal of the source, all of which are ASCII, into
  such a list.
\<close>

type_synonym str = "nat list"

definition lit :: "string \<Rightarrow> str" where
  "lit s = map of_char s"

text \<open>
  The character tables are those of Unicode 14.0.0, which CPython 3.11 carries. A table
  of ranges is sorted, so that a search stops at the first range that starts after the
  code point.
\<close>

fun in_ranges :: "nat \<Rightarrow> (nat \<times> nat) list \<Rightarrow> bool" where
  "in_ranges c [] = False"
| "in_ranges c ((lo, hi) # rs) =
     (if c < lo then False else if c \<le> hi then True else in_ranges c rs)"

text \<open>
  A run \<open>(lo, hi, step, target)\<close> of the lower-case table maps the code points
  \<open>lo\<close>, \<open>lo + step\<close>, ... up to \<open>hi\<close> to \<open>target\<close>, \<open>target + step\<close>, ...; a
  code point in no run is its own lower case.
\<close>

fun lookup_run :: "nat \<Rightarrow> (nat \<times> nat \<times> nat \<times> nat) list \<Rightarrow> nat" where
  "lookup_run c [] = c"
| "lookup_run c ((lo, hi, step, target) # rs) =
     (if c < lo then c
      else if c \<le> hi \<and> (c - lo) mod step = 0 then target + (c - lo)
      else lookup_run c rs)"

text \<open>The decimal digits (general category Nd): the class \<^verbatim>\<open>\d\<close> of a \<^verbatim>\<open>str\<close> pattern.\<close>

definition decimal_digit_ranges :: "(nat \<times> nat) list" where
  "decimal_digit_ranges =
     [
      (0x30, 0x39), (0x660, 0x669), (0x6F0, 0x6F9), (0x7C0, 0x7C9), (0x966, 0x96F), (0x9E6, 0x9EF),
      (0xA66, 0xA6F), (0xAE6, 0xAEF), (0xB66, 0xB6F), (0xBE6, 0xBEF), (0xC66, 0xC6F), (0xCE6, 0xCEF),
      (0xD66, 0xD6F), (0xDE6, 0xDEF), (0xE50, 0xE59), (0xED0, 0xED9), (0xF20, 0xF29), (0x1040, 0x1049),
      (0x1090, 0x1099), (0x17E0, 0x17E9), (0x1810, 0x1819), (0x1946, 0x194F), (0x19D0, 0x19D9), (0x1A80, 0x1A89),
      (0x1A90, 0x1A99), (0x1B50, 0x1B59), (0x1BB0, 0x1BB9), (0x1C40, 0x1C49), (0x1C50, 0x1C59), (0xA620, 0xA629),
      (0xA8D0, 0xA8D9), (0xA900, 0xA909), (0xA9D0, 0xA9D9), (0xA9F0, 0xA9F9), (0xAA50, 0xAA59), (0xABF0, 0xABF9),
      (0xFF10, 0xFF19), (0x104A0, 0x104A9), (0x10D30, 0x10D39), (0x11066, 0x1106F), (0x110F0, 0x110F9), (0x11136, 0x1113F),
      (0x111D0, 0x111D9), (0x112F0, 0x112F9), (0x11450, 0x11459), (0x114D0, 0x114D9), (0x11650, 0x11659), (0x116C0, 0x116C9),
      (0x11730, 0x11739), (0x118E0, 0x118E9), (0x11950, 0x11959), (0x11C50, 0x11C59), (0x11D50, 0x11D59), (0x11DA0, 0x11DA9),
      (0x16A60, 0x16A69), (0x16AC0, 0x16AC9), (0x16B50, 0x16B59), (0x1D7CE, 0x1D7FF), (0x1E140, 0x1E149), (0x1E2F0, 0x1E2F9),
      (0x1E950, 0x1E959), (0x1FBF0, 0x1FBF9)]"

definition isdigit :: "nat \<Rightarrow> bool" where
  "isdigit c = in_ranges c decimal_digit_ranges"

text \<open>The code points with the property Case_Ignorable.\<close>

definition case_ignorable_ranges :: "(nat \<times> nat) list" where
  "case_ignorable_ranges =
     [
      (0x27, 0x27), (0x2E, 0x2E), (0x3A, 0x3A), (0x5E, 0x5E), (0x60, 0x60), (0xA8, 0xA8),
      (0xAD, 0xAD), (0xAF, 0xAF), (0xB4, 0xB4), (0xB7, 0xB8), (0x2B0, 0x36F), (0x374, 0x375),
      (0x37A, 0x37A), (0x384, 0x385), (0x387, 0x387), (0x483, 0x489), (0x559, 0x559), (0x55F, 0x55F),
      (0x591, 0x5BD), (0x5BF, 0x5BF), (0x5C1, 0x5C2), (0x5C4, 0x5C5), (0x5C7, 0x5C7), (0x5F4, 0x5F4),
      (0x600, 0x605), (0x610, 0x61A), (0x61C, 0x61C), (0x640, 0x640), (0x64B, 0x65F), (0x670, 0x670),
      (0x6D6, 0x6DD), (0x6DF, 0x6E8), (0x6EA, 0x6ED), (0x70F, 0x70F), (0x711, 0x711), (0x730, 0x74A),
      (0x7A6, 0x7B0), (0x7EB, 0x7F5), (0x7FA, 0x7FA), (0x7FD, 0x7FD), (0x816, 0x82D), (0x859, 0x85B),
      (0x888, 0x888), (0x890, 0x891), (0x898, 0x89F), (0x8C9, 0x902), (0x93A, 0x93A), (0x93C, 0x93C),
      (0x941, 0x948), (0x94D, 0x94D), (0x951, 0x957), (0x962, 0x963), (0x971, 0x971), (0x981, 0x981),
      (0x9BC, 0x9BC), (0x9C1, 0x9C4), (0x9CD, 0x9CD), (0x9E2, 0x9E3), (0x9FE, 0x9FE), (0xA01, 0xA02),
      (0xA3C, 0xA3C), (0xA41, 0xA42), (0xA47, 0xA48), (0xA4B, 0xA4D), (0xA51, 0xA51), (0xA70, 0xA71),
      (0xA75, 0xA75), (0xA81, 0xA82), (0xABC, 0xABC), (0xAC1, 0xAC5), (0xAC7, 0xAC8), (0xACD, 0xACD),
      (0xAE2, 0xAE3), (0xAFA, 0xAFF), (0xB01, 0xB01), (0xB3C, 0xB3C), (0xB3F, 0xB3F), (0xB41, 0xB44),
      (0xB4D, 0xB4D), (0xB55, 0xB56), (0xB62, 0xB63), (0xB82, 0xB82), (0xBC0, 0xBC0), (0xBCD, 0xBCD),
      (0xC00, 0xC00), (0xC04, 0xC04), (0xC3C, 0xC3C), (0xC3E, 0xC40), (0xC46, 0xC48), (0xC4A, 0xC4D),
      (0xC55, 0xC56), (0xC62, 0xC63), (0xC81, 0xC81), (0xCBC, 0xCBC), (0xCBF, 0xCBF), (0xCC6, 0xCC6),
      (0xCCC, 0xCCD), (0xCE2, 0xCE3), (0xD00, 0xD01), (0xD3B, 0xD3C), (0xD41, 0xD44), (0xD4D, 0xD4D),
      (0xD62, 0xD63), (0xD81, 0xD81), (0xDCA, 0xDCA), (0xDD2, 0xDD4), (0xDD6, 0xDD6), (0xE31, 0xE31),
      (0xE34, 0xE3A), (0xE46, 0xE4E), (0xEB1, 0xEB1), (0xEB4, 0xEBC), (0xEC6, 0xEC6), (0xEC8, 0xECD),
      (0xF18, 0xF19), (0xF35, 0xF35), (0xF37, 0xF37), (0xF39, 0xF39), (0xF71, 0xF7E), (0xF80, 0xF84),
      (0xF86, 0xF87), (0xF8D, 0xF97), (0xF99, 0xFBC), (0xFC6, 0xFC6), (0x102D, 0x1030), (0x1032, 0x1037),
      (0x1039, 0x103A), (0x103D, 0x103E), (0x1058, 0x1059), (0x105E, 0x1060), (0x1071, 0x1074), (0x1082, 0x1082),
      (0x1085, 0x1086), (0x108D, 0x108D), (0x109D, 0x109D), (0x10FC, 0x10FC), (0x135D, 0x135F), (0x1712, 0x1714),
      (0x1732, 0x1733), (0x1752, 0x1753), (0x1772, 0x1773), (0x17B4, 0x17B5), (0x17B7, 0x17BD), (0x17C6, 0x17C6),
      (0x17C9, 0x17D3), (0x17D7, 0x17D7), (0x17DD, 0x17DD), (0x180B, 0x180F), (0x1843, 0x1843), (0x1885, 0x1886),
      (0x18A9, 0x18A9), (0x1920, 0x1922), (0x1927, 0x1928), (0x1932, 0x1932), (0x1939, 0x193B), (0x1A17, 0x1A18),
      (0x1A1B, 0x1A1B), (0x1A56, 0x1A56), (0x1A58, 0x1A5E), (0x1A60, 0x1A60), (0x1A62, 0x1A62), (0x1A65, 0x1A6C),
      (0x1A73, 0x1A7C), (0x1A7F, 0x1A7F), (0x1AA7, 0x1AA7), (0x1AB0, 0x1ACE), (0x1B00, 0x1B03), (0x1B34, 0x1B34),
      (0x1B36, 0x1B3A), (0x1B3C, 0x1B3C), (0x1B42, 0x1B42), (0x1B6B, 0x1B73), (0x1B80, 0x1B81), (0x1BA2, 0x1BA5),
      (0x1BA8, 0x1BA9), (0x1BAB, 0x1BAD), (0x1BE6, 0x1BE6), (0x1BE8, 0x1BE9), (0x1BED, 0x1BED), (0x1BEF, 0x1BF1),
      (0x1C2C, 0x1C33), (0x1C36, 0x1C37), (0x1C78, 0x1C7D), (0x1CD0, 0x1CD2), (0x1CD4, 0x1CE0), (0x1CE2, 0x1CE8),
      (0x1CED, 0x1CED), (0x1CF4, 0x1CF4), (0x1CF8, 0x1CF9), (0x1D2C, 0x1D6A), (0x1D78, 0x1D78), (0x1D9B, 0x1DFF),
      (0x1FBD, 0x1FBD), (0x1FBF, 0x1FC1), (0x1FCD, 0x1FCF), (0x1FDD, 0x1FDF), (0x1FED, 0x1FEF), (0x1FFD, 0x1FFE),
      (0x200B, 0x200F), (0x2018, 0x2019), (0x2024, 0x2024), (0x2027, 0x2027), (0x202A, 0x202E), (0x2060, 0x2064),
      (0x2066, 0x206F), (0x2071, 0x2071), (0x207F, 0x207F), (0x2090, 0x209C), (0x20D0, 0x20F0), (0x2C7C, 0x2C7D),
      (0x2CEF, 0x2CF1), (0x2D6F, 0x2D6F), (0x2D7F, 0x2D7F), (0x2DE0, 0x2DFF), (0x2E2F, 0x2E2F), (0x3005, 0x3005),
      (0x302A, 0x302D), (0x3031, 0x3035), (0x303B, 0x303B), (0x3099, 0x309E), (0x30FC, 0x30FE), (0xA015, 0xA015),
      (0xA4F8, 0xA4FD), (0xA60C, 0xA60C), (0xA66F, 0xA672), (0xA674, 0xA67D), (0xA67F, 0xA67F), (0xA69C, 0xA69F),
      (0xA6F0, 0xA6F1), (0xA700, 0xA721), (0xA770, 0xA770), (0xA788, 0xA78A), (0xA7F2, 0xA7F4), (0xA7F8, 0xA7F9),
      (0xA802, 0xA802), (0xA806, 0xA806), (0xA80B, 0xA80B), (0xA825, 0xA826), (0xA82C, 0xA82C), (0xA8C4, 0xA8C5),
      (0xA8E0, 0xA8F1), (0xA8FF, 0xA8FF), (0xA926, 0xA92D), (0xA947, 0xA951), (0xA980, 0xA982), (0xA9B3, 0xA9B3),
      (0xA9B6, 0xA9B9), (0xA9BC, 0xA9BD), (0xA9CF, 0xA9CF), (0xA9E5, 0xA9E6), (0xAA29, 0xAA2E), (0xAA31, 0xAA32),
      (0xAA35, 0xAA36), (0xAA43, 0xAA43), (0xAA4C, 0xAA4C), (0xAA70, 0xAA70), (0xAA7C, 0xAA7C), (0xAAB0, 0xAAB0),
      (0xAAB2, 0xAAB4), (0xAAB7, 0xAAB8), (0xAABE, 0xAABF), (0xAAC1, 0xAAC1), (0xAADD, 0xAADD), (0xAAEC, 0xAAED),
      (0xAAF3, 0xAAF4), (0xAAF6, 0xAAF6), (0xAB5B, 0xAB5F), (0xAB69, 0xAB6B), (0xABE5, 0xABE5), (0xABE8, 0xABE8),
      (0xABED, 0xABED), (0xFB1E, 0xFB1E), (0xFBB2, 0xFBC2), (0xFE00, 0xFE0F), (0xFE13, 0xFE13), (0xFE20, 0xFE2F),
      (0xFE52, 0xFE52), (0xFE55, 0xFE55), (0xFEFF, 0xFEFF), (0xFF07, 0xFF07), (0xFF0E, 0xFF0E), (0xFF1A, 0xFF1A),
      (0xFF3E, 0xFF3E), (0xFF40, 0xFF40), (0xFF70, 0xFF70), (0xFF9E, 0xFF9F), (0xFFE3, 0xFFE3), (0xFFF9, 0xFFFB),
      (0x101FD, 0x101FD), (0x102E0, 0x102E0), (0x10376, 0x1037A), (0x10780, 0x10785), (0x10787, 0x107B0), (0x107B2, 0x107BA),
      (0x10A01, 0x10A03), (0x10A05, 0x10A06), (0x10A0C, 0x10A0F), (0x10A38, 0x10A3A), (0x10A3F, 0x10A3F), (0x10AE5, 0x10AE6),
      (0x10D24, 0x10D27), (0x10EAB, 0x10EAC), (0x10F46, 0x10F50), (0x10F82, 0x10F85), (0x11001, 0x11001), (0x11038, 0x11046),
      (0x11070, 0x11070), (0x11073, 0x11074), (0x1107F, 0x11081), (0x110B3, 0x110B6), (0x110B9, 0x110BA), (0x110BD, 0x110BD),
      (0x110C2, 0x110C2), (0x110CD, 0x110CD), (0x11100, 0x11102), (0x11127, 0x1112B), (0x1112D, 0x11134), (0x11173, 0x11173),
      (0x11180, 0x11181), (0x111B6, 0x111BE), (0x111C9, 0x111CC), (0x111CF, 0x111CF), (0x1122F, 0x11231), (0x11234, 0x11234),
      (0x11236, 0x11237), (0x1123E, 0x1123E), (0x112DF, 0x112DF), (0x112E3, 0x112EA), (0x11300, 0x11301), (0x1133B, 0x1133C),
      (0x11340, 0x11340), (0x11366, 0x1136C), (0x11370, 0x11374), (0x11438, 0x1143F), (0x11442, 0x11444), (0x11446, 0x11446),
      (0x1145E, 0x1145E), (0x114B3, 0x114B8), (0x114BA, 0x114BA), (0x114BF, 0x114C0), (0x114C2, 0x114C3), (0x115B2, 0x115B5),
      (0x115BC, 0x115BD), (0x115BF, 0x115C0), (0x115DC, 0x115DD), (0x11633, 0x1163A), (0x1163D, 0x1163D), (0x1163F, 0x11640),
      (0x116AB, 0x116AB), (0x116AD, 0x116AD), (0x116B0, 0x116B5), (0x116B7, 0x116B7), (0x1171D, 0x1171F), (0x11722, 0x11725),
      (0x11727, 0x1172B), (0x1182F, 0x11837), (0x11839, 0x1183A), (0x1193B, 0x1193C), (0x1193E, 0x1193E), (0x11943, 0x11943),
      (0x119D4, 0x119D7), (0x119DA, 0x119DB), (0x119E0, 0x119E0), (0x11A01, 0x11A0A), (0x11A33, 0x11A38), (0x11A3B, 0x11A3E),
      (0x11A47, 0x11A47), (0x11A51, 0x11A56), (0x11A59, 0x11A5B), (0x11A8A, 0x11A96), (0x11A98, 0x11A99), (0x11C30, 0x11C36),
      (0x11C38, 0x11C3D), (0x11C3F, 0x11C3F), (0x11C92, 0x11CA7), (0x11CAA, 0x11CB0), (0x11CB2, 0x11CB3), (0x11CB5, 0x11CB6),
      (0x11D31, 0x11D36), (0x11D3A, 0x11D3A), (0x11D3C, 0x11D3D), (0x11D3F, 0x11D45), (0x11D47, 0x11D47), (0x11D90, 0x11D91),
      (0x11D95, 0x11D95), (0x11D97, 0x11D97), (0x11EF3, 0x11EF4), (0x13430, 0x13438), (0x16AF0, 0x16AF4), (0x16B30, 0x16B36),
      (0x16B40, 0x16B43), (0x16F4F, 0x16F4F), (0x16F8F, 0x16F9F), (0x16FE0, 0x16FE1), (0x16FE3, 0x16FE4), (0x1AFF0, 0x1AFF3),
      (0x1AFF5, 0x1AFFB), (0x1AFFD, 0x1AFFE), (0x1BC9D, 0x1BC9E), (0x1BCA0, 0x1BCA3), (0x1CF00, 0x1CF2D), (0x1CF30, 0x1CF46),
      (0x1D167, 0x1D169), (0x1D173, 0x1D182), (0x1D185, 0x1D18B), (0x1D1AA, 0x1D1AD), (0x1D242, 0x1D244), (0x1DA00, 0x1DA36),
      (0x1DA3B, 0x1DA6C), (0x1DA75, 0x1DA75), (0x1DA84, 0x1DA84), (0x1DA9B, 0x1DA9F), (0x1DAA1, 0x1DAAF), (0x1E000, 0x1E006),
      (0x1E008, 0x1E018), (0x1E01B, 0x1E021), (0x1E023, 0x1E024), (0x1E026, 0x1E02A), (0x1E130, 0x1E13D), (0x1E2AE, 0x1E2AE),
      (0x1E2EC, 0x1E2EF), (0x1E8D0, 0x1E8D6), (0x1E944, 0x1E94B), (0x1F3FB, 0x1F3FF), (0xE0001, 0xE0001), (0xE0020, 0xE007F),
      (0xE0100, 0xE01EF)]"

definition case_ignorable :: "nat \<Rightarrow> bool" where
  "case_ignorable c = in_ranges c case_ignorable_ranges"

text \<open>
  The code points with the property Cased that are not Case_Ignorable; \<^verbatim>\<open>str.lower()\<close>
  asks whether a code point is cased only after it has found it not to be
  case-ignorable.
\<close>

definition cased_ranges :: "(nat \<times> nat) list" where
  "cased_ranges =
     [
      (0x41, 0x5A), (0x61, 0x7A), (0xAA, 0xAA), (0xB5, 0xB5), (0xBA, 0xBA), (0xC0, 0xD6),
      (0xD8, 0xF6), (0xF8, 0x1BA), (0x1BC, 0x1BF), (0x1C4, 0x293), (0x295, 0x2AF), (0x370, 0x373),
      (0x376, 0x377), (0x37B, 0x37D), (0x37F, 0x37F), (0x386, 0x386), (0x388, 0x38A), (0x38C, 0x38C),
      (0x38E, 0x3A1), (0x3A3, 0x3F5), (0x3F7, 0x481), (0x48A, 0x52F), (0x531, 0x556), (0x560, 0x588),
      (0x10A0, 0x10C5), (0x10C7, 0x10C7), (0x10CD, 0x10CD), (0x10D0, 0x10FA), (0x10FD, 0x10FF), (0x13A0, 0x13F5),
      (0x13F8, 0x13FD), (0x1C80, 0x1C88), (0x1C90, 0x1CBA), (0x1CBD, 0x1CBF), (0x1D00, 0x1D2B), (0x1D6B, 0x1D77),
      (0x1D79, 0x1D9A), (0x1E00, 0x1F15), (0x1F18, 0x1F1D), (0x1F20, 0x1F45), (0x1F48, 0x1F4D), (0x1F50, 0x1F57),
      (0x1F59, 0x1F59), (0x1F5B, 0x1F5B), (0x1F5D, 0x1F5D), (0x1F5F, 0x1F7D), (0x1F80, 0x1FB4), (0x1FB6, 0x1FBC),
      (0x1FBE, 0x1FBE), (0x1FC2, 0x1FC4), (0x1FC6, 0x1FCC), (0x1FD0, 0x1FD3), (0x1FD6, 0x1FDB), (0x1FE0, 0x1FEC),
      (0x1FF2, 0x1FF4), (0x1FF6, 0x1FFC), (0x2102, 0x2102), (0x2107, 0x2107), (0x210A, 0x2113), (0x2115, 0x2115),
      (0x2119, 0x211D), (0x2124, 0x2124), (0x2126, 0x2126), (0x2128, 0x2128), (0x212A, 0x212D), (0x212F, 0x2134),
      (0x2139, 0x2139), (0x213C, 0x213F), (0x2145, 0x2149), (0x214E, 0x214E), (0x2160, 0x217F), (0x2183, 0x2184),
      (0x24B6, 0x24E9), (0x2C00, 0x2C7B), (0x2C7E, 0x2CE4), (0x2CEB, 0x2CEE), (0x2CF2, 0x2CF3), (0x2D00, 0x2D25),
      (0x2D27, 0x2D27), (0x2D2D, 0x2D2D), (0xA640, 0xA66D), (0xA680, 0xA69B), (0xA722, 0xA76F), (0xA771, 0xA787),
      (0xA78B, 0xA78E), (0xA790, 0xA7CA), (0xA7D0, 0xA7D1), (0xA7D3, 0xA7D3), (0xA7D5, 0xA7D9), (0xA7F5, 0xA7F6),
      (0xA7FA, 0xA7FA), (0xAB30, 0xAB5A), (0xAB60, 0xAB68), (0xAB70, 0xABBF), (0xFB00, 0xFB06), (0xFB13, 0xFB17),
      (0xFF21, 0xFF3A), (0xFF41, 0xFF5A), (0x10400, 0x1044F), (0x104B0, 0x104D3), (0x104D8, 0x104FB), (0x10570, 0x1057A),
      (0x1057C, 0x1058A), (0x1058C, 0x10592), (0x10594, 0x10595), (0x10597, 0x105A1), (0x105A3, 0x105B1), (0x105B3, 0x105B9),
      (0x105BB, 0x105BC), (0x10C80, 0x10CB2), (0x10CC0, 0x10CF2), (0x118A0, 0x118DF), (0x16E40, 0x16E7F), (0x1D400, 0x1D454),
      (0x1D456, 0x1D49C), (0x1D49E, 0x1D49F), (0x1D4A2, 0x1D4A2), (0x1D4A5, 0x1D4A6), (0x1D4A9, 0x1D4AC), (0x1D4AE, 0x1D4B9),
      (0x1D4BB, 0x1D4BB), (0x1D4BD, 0x1D4C3), (0x1D4C5, 0x1D505), (0x1D507, 0x1D50A), (0x1D50D, 0x1D514), (0x1D516, 0x1D51C),
      (0x1D51E, 0x1D539), (0x1D53B, 0x1D53E), (0x1D540, 0x1D544), (0x1D546, 0x1D546), (0x1D54A, 0x1D550), (0x1D552, 0x1D6A5),
      (0x1D6A8, 0x1D6C0), (0x1D6C2, 0x1D6DA), (0x1D6DC, 0x1D6FA), (0x1D6FC, 0x1D714), (0x1D716, 0x1D734), (0x1D736, 0x1D74E),
      (0x1D750, 0x1D76E), (0x1D770, 0x1D788), (0x1D78A, 0x1D7A8), (0x1D7AA, 0x1D7C2), (0x1D7C4, 0x1D7CB), (0x1DF00, 0x1DF09),
      (0x1DF0B, 0x1DF1E), (0x1E900, 0x1E943), (0x1F130, 0x1F149), (0x1F150, 0x1F169), (0x1F170, 0x1F189)]"

definition cased :: "nat \<Rightarrow> bool" where
  "cased c = in_ranges c cased_ranges"

text \<open>The lower-case mapping of the code points that have a single lower-case code point.\<close>

definition lowercase_runs :: "(nat \<times> nat \<times> nat \<times> nat) list" where
  "lowercase_runs =
     [
      (0x41, 0x5A, 1, 0x61), (0xC0, 0xD6, 1, 0xE0), (0xD8, 0xDE, 1, 0xF8),
      (0x100, 0x12E, 2, 0x101), (0x132, 0x136, 2, 0x133), (0x139, 0x147, 2, 0x13A),
      (0x14A, 0x176, 2, 0x14B), (0x178, 0x178, 1, 0xFF), (0x179, 0x17D, 2, 0x17A),
      (0x181, 0x181, 1, 0x253), (0x182, 0x184, 2, 0x183), (0x186, 0x186, 1, 0x254),
      (0x187, 0x187, 1, 0x188), (0x189, 0x18A, 1, 0x256), (0x18B, 0x18B, 1, 0x18C),
      (0x18E, 0x18E, 1, 0x1DD), (0x18F, 0x18F, 1, 0x259), (0x190, 0x190, 1, 0x25B),
      (0x191, 0x191, 1, 0x192), (0x193, 0x193, 1, 0x260), (0x194, 0x194, 1, 0x263),
      (0x196, 0x196, 1, 0x269), (0x197, 0x197, 1, 0x268), (0x198, 0x198, 1, 0x199),
      (0x19C, 0x19C, 1, 0x26F), (0x19D, 0x19D, 1, 0x272), (0x19F, 0x19F, 1, 0x275),
      (0x1A0, 0x1A4, 2, 0x1A1), (0x1A6, 0x1A6, 1, 0x280), (0x1A7, 0x1A7, 1, 0x1A8),
      (0x1A9, 0x1A9, 1, 0x283), (0x1AC, 0x1AC, 1, 0x1AD), (0x1AE, 0x1AE, 1, 0x288),
      (0x1AF, 0x1AF, 1, 0x1B0), (0x1B1, 0x1B2, 1, 0x28A), (0x1B3, 0x1B5, 2, 0x1B4),
      (0x1B7, 0x1B7, 1, 0x292), (0x1B8, 0x1B8, 1, 0x1B9), (0x1BC, 0x1BC, 1, 0x1BD),
      (0x1C4, 0x1C4, 1, 0x1C6), (0x1C5, 0x1C5, 1, 0x1C6), (0x1C7, 0x1C7, 1, 0x1C9),
      (0x1C8, 0x1C8, 1, 0x1C9), (0x1CA, 0x1CA, 1, 0x1CC), (0x1CB, 0x1DB, 2, 0x1CC),
      (0x1DE, 0x1EE, 2, 0x1DF), (0x1F1, 0x1F1, 1, 0x1F3), (0x1F2, 0x1F4, 2, 0x1F3),
      (0x1F6, 0x1F6, 1, 0x195), (0x1F7, 0x1F7, 1, 0x1BF), (0x1F8, 0x21E, 2, 0x1F9),
      (0x220, 0x220, 1, 0x19E), (0x222, 0x232, 2, 0x223), (0x23A, 0x23A, 1, 0x2C65),
      (0x23B, 0x23B, 1, 0x23C), (0x23D, 0x23D, 1, 0x19A), (0x23E, 0x23E, 1, 0x2C66),
      (0x241, 0x241, 1, 0x242), (0x243, 0x243, 1, 0x180), (0x244, 0x244, 1, 0x289),
      (0x245, 0x245, 1, 0x28C), (0x246, 0x24E, 2, 0x247), (0x370, 0x372, 2, 0x371),
      (0x376, 0x376, 1, 0x377), (0x37F, 0x37F, 1, 0x3F3), (0x386, 0x386, 1, 0x3AC),
      (0x388, 0x38A, 1, 0x3AD), (0x38C, 0x38C, 1, 0x3CC), (0x38E, 0x38F, 1, 0x3CD),
      (0x391, 0x3A1, 1, 0x3B1), (0x3A3, 0x3AB, 1, 0x3C3), (0x3CF, 0x3CF, 1, 0x3D7),
      (0x3D8, 0x3EE, 2, 0x3D9), (0x3F4, 0x3F4, 1, 0x3B8), (0x3F7, 0x3F7, 1, 0x3F8),
      (0x3F9, 0x3F9, 1, 0x3F2), (0x3FA, 0x3FA, 1, 0x3FB), (0x3FD, 0x3FF, 1, 0x37B),
      (0x400, 0x40F, 1, 0x450), (0x410, 0x42F, 1, 0x430), (0x460, 0x480, 2, 0x461),
      (0x48A, 0x4BE, 2, 0x48B), (0x4C0, 0x4C0, 1, 0x4CF), (0x4C1, 0x4CD, 2, 0x4C2),
      (0x4D0, 0x52E, 2, 0x4D1), (0x531, 0x556, 1, 0x561), (0x10A0, 0x10C5, 1, 0x2D00),
      (0x10C7, 0x10C7, 1, 0x2D27), (0x10CD, 0x10CD, 1, 0x2D2D), (0x13A0, 0x13EF, 1, 0xAB70),
      (0x13F0, 0x13F5, 1, 0x13F8), (0x1C90, 0x1CBA, 1, 0x10D0), (0x1CBD, 0x1CBF, 1, 0x10FD),
      (0x1E00, 0x1E94, 2, 0x1E01), (0x1E9E, 0x1E9E, 1, 0xDF), (0x1EA0, 0x1EFE, 2, 0x1EA1),
      (0x1F08, 0x1F0F, 1, 0x1F00), (0x1F18, 0x1F1D, 1, 0x1F10), (0x1F28, 0x1F2F, 1, 0x1F20),
      (0x1F38, 0x1F3F, 1, 0x1F30), (0x1F48, 0x1F4D, 1, 0x1F40), (0x1F59, 0x1F5F, 2, 0x1F51),
      (0x1F68, 0x1F6F, 1, 0x1F60), (0x1F88, 0x1F8F, 1, 0x1F80), (0x1F98, 0x1F9F, 1, 0x1F90),
      (0x1FA8, 0x1FAF, 1, 0x1FA0), (0x1FB8, 0x1FB9, 1, 0x1FB0), (0x1FBA, 0x1FBB, 1, 0x1F70),
      (0x1FBC, 0x1FBC, 1, 0x1FB3), (0x1FC8, 0x1FCB, 1, 0x1F72), (0x1FCC, 0x1FCC, 1, 0x1FC3),
      (0x1FD8, 0x1FD9, 1, 0x1FD0), (0x1FDA, 0x1FDB, 1, 0x1F76), (0x1FE8, 0x1FE9, 1, 0x1FE0),
      (0x1FEA, 0x1FEB, 1, 0x1F7A), (0x1FEC, 0x1FEC, 1, 0x1FE5), (0x1FF8, 0x1FF9, 1, 0x1F78),
      (0x1FFA, 0x1FFB, 1, 0x1F7C), (0x1FFC, 0x1FFC, 1, 0x1FF3), (0x2126, 0x2126, 1, 0x3C9),
      (0x212A, 0x212A, 1, 0x6B), (0x212B, 0x212B, 1, 0xE5), (0x2132, 0x2132, 1, 0x214E),
      (0x2160, 0x216F, 1, 0x2170), (0x2183, 0x2183, 1, 0x2184), (0x24B6, 0x24CF, 1, 0x24D0),
      (0x2C00, 0x2C2F, 1, 0x2C30), (0x2C60, 0x2C60, 1, 0x2C61), (0x2C62, 0x2C62, 1, 0x26B),
      (0x2C63, 0x2C63, 1, 0x1D7D), (0x2C64, 0x2C64, 1, 0x27D), (0x2C67, 0x2C6B, 2, 0x2C68),
      (0x2C6D, 0x2C6D, 1, 0x251), (0x2C6E, 0x2C6E, 1, 0x271), (0x2C6F, 0x2C6F, 1, 0x250),
      (0x2C70, 0x2C70, 1, 0x252), (0x2C72, 0x2C72, 1, 0x2C73), (0x2C75, 0x2C75, 1, 0x2C76),
      (0x2C7E, 0x2C7F, 1, 0x23F), (0x2C80, 0x2CE2, 2, 0x2C81), (0x2CEB, 0x2CED, 2, 0x2CEC),
      (0x2CF2, 0x2CF2, 1, 0x2CF3), (0xA640, 0xA66C, 2, 0xA641), (0xA680, 0xA69A, 2, 0xA681),
      (0xA722, 0xA72E, 2, 0xA723), (0xA732, 0xA76E, 2, 0xA733), (0xA779, 0xA77B, 2, 0xA77A),
      (0xA77D, 0xA77D, 1, 0x1D79), (0xA77E, 0xA786, 2, 0xA77F), (0xA78B, 0xA78B, 1, 0xA78C),
      (0xA78D, 0xA78D, 1, 0x265), (0xA790, 0xA792, 2, 0xA791), (0xA796, 0xA7A8, 2, 0xA797),
      (0xA7AA, 0xA7AA, 1, 0x266), (0xA7AB, 0xA7AB, 1, 0x25C), (0xA7AC, 0xA7AC, 1, 0x261),
      (0xA7AD, 0xA7AD, 1, 0x26C), (0xA7AE, 0xA7AE, 1, 0x26A), (0xA7B0, 0xA7B0, 1, 0x29E),
      (0xA7B1, 0xA7B1, 1, 0x287), (0xA7B2, 0xA7B2, 1, 0x29D), (0xA7B3, 0xA7B3, 1, 0xAB53),
      (0xA7B4, 0xA7C2, 2, 0xA7B5), (0xA7C4, 0xA7C4, 1, 0xA794), (0xA7C5, 0xA7C5, 1, 0x282),
      (0xA7C6, 0xA7C6, 1, 0x1D8E), (0xA7C7, 0xA7C9, 2, 0xA7C8), (0xA7D0, 0xA7D0, 1, 0xA7D1),
      (0xA7D6, 0xA7D8, 2, 0xA7D7), (0xA7F5, 0xA7F5, 1, 0xA7F6), (0xFF21, 0xFF3A, 1, 0xFF41),
      (0x10400, 0x10427, 1, 0x10428), (0x104B0, 0x104D3, 1, 0x104D8), (0x10570, 0x1057A, 1, 0x10597),
      (0x1057C, 0x1058A, 1, 0x105A3), (0x1058C, 0x10592, 1, 0x105B3), (0x10594, 0x10595, 1, 0x105BB),
      (0x10C80, 0x10CB2, 1, 0x10CC0), (0x118A0, 0x118BF, 1, 0x118C0), (0x16E40, 0x16E5F, 1, 0x16E60),
      (0x1E900, 0x1E921, 1, 0x1E922)]"

text \<open>
  The full lower-case mapping of one code point: \<^verbatim>\<open>U+0130\<close> is the one code point
  whose lower case has two code points.
\<close>

definition to_lower_full :: "nat \<Rightarrow> str" where
  "to_lower_full c = (if c = 0x130 then [0x69, 0x307] else [lookup_run c lowercase_runs])"

text \<open>
  \<open>cased_context cs\<close>: the first code point of \<open>cs\<close> that is not case-ignorable exists
  and is cased.
\<close>

fun cased_context :: "str \<Rightarrow> bool" where
  "cased_context [] = False"
| "cased_context (c # cs) = (if case_ignorable c then cased_context cs else cased c)"

text \<open>
  \<^verbatim>\<open>s.lower()\<close>. The capital sigma \<^verbatim>\<open>U+03A3\<close> becomes the final sigma \<^verbatim>\<open>U+03C2\<close>
  when a cased code point precedes it and none follows it, case-ignorable code points
  skipped on both sides, and \<^verbatim>\<open>U+03C3\<close> otherwise; every other code point is mapped
  on its own. \<open>before\<close> holds the code points already passed, the nearest first.
\<close>

fun lower_from :: "str \<Rightarrow> str \<Rightarrow> str" where
  "lower_from before [] = []"
| "lower_from before (c # cs) =
     (if c = 0x3A3
      then [if cased_context before \<and> \<not> cased_context cs then 0x3C2 else 0x3C3]
      else to_lower_full c) @ lower_from (c # before) cs"

definition lower :: "str \<Rightarrow> str" where
  "lower s = lower_from [] s"

text \<open>\<^verbatim>\<open>a in b\<close> on two strings: \<open>a\<close> occurs in \<open>b\<close> as a contiguous run.\<close>

fun str_in :: "str \<Rightarrow> str \<Rightarrow> bool" where
  "str_in a [] = (a = [])"
| "str_in a (c # cs) = (prefix a (c # cs) \<or> str_in a cs)"

text \<open>
  \<^verbatim>\<open>str(n)\<close> of an integer, as the f-strings of the source format it: the digit
  \<open>d\<close> is the code point \<open>48 + d\<close>, the minus sign \<^verbatim>\<open>0x2D\<close>.
\<close>

fun str_nat :: "nat \<Rightarrow> str" where
  "str_nat n =
     (if n < 10 then [48 + n]
      else str_nat (n div 10) @ [48 + n mod 10])"

declare str_nat.simps [simp del]

definition str_int :: "int \<Rightarrow> str" where
  "str_int i = (if i < 0 then 0x2D # str_nat (nat (- i)) else str_nat (nat i))"

text \<open>
  \<^verbatim>\<open>xs[start:stop]\<close> for arbitrary integers: a negative index counts from the end, and
  both indices are clamped to the list.
\<close>

definition clamp_index :: "int \<Rightarrow> int \<Rightarrow> int" where
  "clamp_index n i = (if i < 0 then max 0 (n + i) else min i n)"

definition slice :: "'a list \<Rightarrow> int \<Rightarrow> int \<Rightarrow> 'a list" where
  "slice xs start stop =
     (let n = int (length xs);
          lo = clamp_index n start;
          hi = clamp_index n stop
      in take (nat (hi - lo)) (drop (nat lo) xs))"

text \<open>
  \<^verbatim>\<open>sorted(xs, key=key, reverse=True)\<close>. CPython reverses the list, sorts it ascending
  with a stable sort and reverses the result, which keeps elements of equal key in
  their original order. The stable ascending sort is \<^const>\<open>sort_key\<close>.
\<close>

definition sorted_reverse :: "('a \<Rightarrow> 'k::linorder) \<Rightarrow> 'a list \<Rightarrow> 'a list" where
  "sorted_reverse key xs = rev (sort_key key (rev xs))"


section \<open>Data model\<close>

text \<open>
  An element of \<^verbatim>\<open>orders_db\<close> is a dictionary; the field \<open>o_k\<close> is its entry
  \<^verbatim>\<open>o["k"]\<close>. The key \<^verbatim>\<open>"price"\<close> is absent from some dictionaries
  (\<open>o_price = None\<close>) and \<^verbatim>\<open>"download_link"\<close> may hold \<^verbatim>\<open>None\<close>.
  \<^verbatim>\<open>created_at\<close> is a finite float, of which only the order is used: it is
  modelled as a real number. Where the source subtracts two floats the model subtracts
  the reals; rounding is monotone, so it cannot turn a descending sequence into one
  that is not.
\<close>

record order =
  o_id :: int
  o_name :: str
  o_udid :: str
  o_image_url :: str
  o_status :: str
  o_download_link :: "str option"
  o_created_at :: real
  o_price :: "str option"

text \<open>The dictionary returned by \<^verbatim>\<open>list_orders\<close>.\<close>

record order_list_response =
  r_items :: "order list"
  r_total :: int
  r_page :: int
  r_page_size :: int

record token =
  access_token :: str
  token_type :: str

text \<open>An \<^verbatim>\<open>UploadFile\<close>: only its file name is read by the handlers.\<close>

record upload_file =
  filename :: "str option"

text \<open>
  What a handler reads from outside the process: the hexadecimal digits of the
  \<^verbatim>\<open>uuid.uuid4()\<close> it draws, whether writing the image file succeeds, and
  \<^verbatim>\<open>time.time()\<close>.
\<close>

record env =
  uuid_hex :: str
  write_ok :: bool
  now :: real

text \<open>The \<^verbatim>\<open>HTTPException\<close>s raised: status codes 401, 404 and 500.\<close>

datatype http_error = Unauthorized | NotFound | StorageError

definition UPLOAD_DIR :: str where
  "UPLOAD_DIR = lit ''images''"

definition ADMIN_USERNAME :: str where
  "ADMIN_USERNAME = lit ''admin''"

definition ADMIN_PASSWORD :: str where
  "ADMIN_PASSWORD = lit ''password123''"

definition ADMIN_TOKEN :: str where
  "ADMIN_TOKEN = lit ''fake-jwt-token-for-admin''"


section \<open>Security dependency and helpers\<close>

definition get_current_user :: "str \<Rightarrow> http_error + str" where
  "get_current_user token =
     (if token \<noteq> ADMIN_TOKEN then Inl Unauthorized else Inr ADMIN_USERNAME)"

definition save_upload_file :: "env \<Rightarrow> upload_file \<Rightarrow> int \<Rightarrow> http_error + str" where
  "save_upload_file e upload_file order_id =
     (let fname = lit ''order_'' @ str_int order_id @ lit ''_'' @ take 8 (uuid_hex e) @ lit ''_''
                  @ (case filename upload_file of None \<Rightarrow> lit ''None'' | Some f \<Rightarrow> f)
      in if write_ok e then Inr (lit ''/'' @ UPLOAD_DIR @ lit ''/'' @ fname)
         else Inl StorageError)"

text \<open>
  \<^verbatim>\<open>re.search(r'\$(\d+)', name)\<close>: \<open>match_price\<close> matches the pattern at the start of
  a string and yields group 1, the longest run of digits after the dollar sign (the
  code point \<^verbatim>\<open>0x24\<close>); \<open>search_price\<close> tries the start positions from left to
  right.
\<close>

definition match_price :: "str \<Rightarrow> str option" where
  "match_price s =
     (case s of
        [] \<Rightarrow> None
      | c # cs \<Rightarrow>
          if c = 0x24 \<and> takeWhile isdigit cs \<noteq> [] then Some (takeWhile isdigit cs)
          else None)"

fun search_price :: "str \<Rightarrow> str option" where
  "search_price [] = match_price []"
| "search_price (c # cs) =
     (case match_price (c # cs) of
        Some g \<Rightarrow> Some g
      | None \<Rightarrow> search_price cs)"

definition extract_price_from_name :: "str \<Rightarrow> str" where
  "extract_price_from_name name =
     (case search_price name of Some g \<Rightarrow> g | None \<Rightarrow> lit ''N/A'')"


section \<open>Startup\<close>

text \<open>
  \<open>clock i\<close> and \<open>uuids i\<close> are the values of \<^verbatim>\<open>time.time()\<close> and of
  \<^verbatim>\<open>uuid.uuid4().hex\<close> in iteration \<open>i\<close> of the loop.
\<close>

definition dummy_order :: "(int \<Rightarrow> real) \<Rightarrow> (int \<Rightarrow> str) \<Rightarrow> int \<Rightarrow> order" where
  "dummy_order clock uuids i =
     \<lparr> o_id = i,
       o_name = lit ''Dummy Item '' @ str_int i @ lit '' $'' @ str_int (100 + i),
       o_udid = lit ''dummy-'' @ str_int i @ lit ''-'' @ take 12 (uuids i),
       o_image_url = lit ''/images/default.jpg'',
       o_status = (if i mod 3 = 0 then lit ''approved''
                   else if i mod 5 = 0 then lit ''rejected'' else lit ''pending''),
       o_download_link = (if i mod 3 = 0
                          then Some (lit ''http://example.com/download/'' @ str_int i)
                          else None),
       o_created_at = clock i - real_of_int (i * 3600),
       o_price = None \<rparr>"

definition startup_event :: "(int \<Rightarrow> real) \<Rightarrow> (int \<Rightarrow> str) \<Rightarrow> order list \<Rightarrow> order list" where
  "startup_event clock uuids orders_db =
     foldl (\<lambda>db i. db @ [dummy_order clock uuids i]) orders_db [1..25]"


section \<open>Endpoints\<close>

text \<open>
  A handler takes the value of \<^verbatim>\<open>orders_db\<close> and, where it assigns or mutates it,
  returns the new value beside its result. The parameter \<^verbatim>\<open>admin\<close> of the protected
  handlers is the result of \<open>get_current_user\<close> and is not read by their bodies.
\<close>

definition login_for_access_token :: "str \<Rightarrow> str \<Rightarrow> http_error + token" where
  "login_for_access_token username password =
     (if username \<noteq> ADMIN_USERNAME \<or> password \<noteq> ADMIN_PASSWORD then Inl Unauthorized
      else Inr \<lparr> access_token = ADMIN_TOKEN, token_type = lit ''bearer'' \<rparr>)"

definition create_order ::
  "env \<Rightarrow> order list \<Rightarrow> str \<Rightarrow> str \<Rightarrow> upload_file \<Rightarrow> (http_error + order) \<times> order list"
where
  "create_order e orders_db name udid image' =
     (let new_id = int (length orders_db) + 1
      in case save_upload_file e image' new_id of
           Inl err \<Rightarrow> (Inl err, orders_db)
         | Inr image_url \<Rightarrow>
             (let new_order =
                    \<lparr> o_id = new_id,
                      o_name = name,
                      o_udid = udid,
                      o_image_url = image_url,
                      o_status = lit ''pending'',
                      o_download_link = None,
                      o_created_at = now e,
                      o_price = Some (extract_price_from_name name) \<rparr>
              in (Inr new_order, orders_db @ [new_order])))"

text \<open>The two filters of \<^verbatim>\<open>list_orders\<close>, in the order the handler applies them.\<close>

definition status_filter :: "str option \<Rightarrow> order list \<Rightarrow> order list" where
  "status_filter status filtered_orders =
     (case status of
        None \<Rightarrow> filtered_orders
      | Some s \<Rightarrow>
          if s \<noteq> [] \<and> lower s \<in> set [lit ''pending'', lit ''approved'', lit ''rejected'']
          then filter (\<lambda>ord. lower (o_status ord) = lower s) filtered_orders
          else filtered_orders)"

definition q_filter :: "str option \<Rightarrow> order list \<Rightarrow> order list" where
  "q_filter q filtered_orders =
     (case q of
        None \<Rightarrow> filtered_orders
      | Some t \<Rightarrow>
          if t \<noteq> []
          then (let q_lower = lower t
                in filter (\<lambda>ord. str_in q_lower (lower (o_name ord))
                              \<or> str_in q_lower (lower (o_udid ord))) filtered_orders)
          else filtered_orders)"

text \<open>\<^verbatim>\<open>{**o, "price": extract_price_from_name(o["name"])}\<close>\<close>

definition with_price :: "order \<Rightarrow> order" where
  "with_price ord = ord\<lparr> o_price := Some (extract_price_from_name (o_name ord)) \<rparr>"

definition list_orders ::
  "order list \<Rightarrow> int \<Rightarrow> int \<Rightarrow> str option \<Rightarrow> str option \<Rightarrow> order_list_response"
where
  "list_orders orders_db page page_size status q =
     (let filtered_orders = q_filter q (status_filter status orders_db);
          sorted_orders = sorted_reverse o_created_at filtered_orders;
          start = (page - 1) * page_size;
          stop = start + page_size;
          items = map with_price (slice sorted_orders start stop)
      in \<lparr> r_items = items,
           r_total = int (length filtered_orders),
           r_page = page,
           r_page_size = page_size \<rparr>)"

text \<open>The value of the variable \<^verbatim>\<open>sorted_orders\<close> of \<^verbatim>\<open>list_orders\<close>.\<close>

definition sorted_orders :: "order list \<Rightarrow> str option \<Rightarrow> str option \<Rightarrow> order list" where
  "sorted_orders orders_db status q =
     sorted_reverse o_created_at (q_filter q (status_filter status orders_db))"

definition get_order :: "order list \<Rightarrow> int \<Rightarrow> http_error + order" where
  "get_order orders_db order_id =
     (case find (\<lambda>ord. o_id ord = order_id) orders_db of
        None \<Rightarrow> Inl NotFound
      | Some order \<Rightarrow> Inr (with_price order))"

text \<open>
  \<^verbatim>\<open>next((i for i, o in enumerate(orders_db) if o["id"] == order_id), -1)\<close>
\<close>

definition order_index_of :: "order list \<Rightarrow> int \<Rightarrow> int" where
  "order_index_of orders_db order_id =
     (case find (\<lambda>(i, ord). o_id ord = order_id) (enumerate 0 orders_db) of
        None \<Rightarrow> - 1
      | Some (i, ord) \<Rightarrow> int i)"

text \<open>
  \<^verbatim>\<open>update_order\<close> mutates the dictionary at \<open>order_index\<close> in place; a failing file
  write raises before the first assignment.
\<close>

definition update_order ::
  "env \<Rightarrow> order list \<Rightarrow> int \<Rightarrow> str \<Rightarrow> str \<Rightarrow> str \<Rightarrow> str option \<Rightarrow>
   upload_file option \<Rightarrow> (http_error + order) \<times> order list"
where
  "update_order e orders_db order_id name udid status download_link image' =
     (let order_index = order_index_of orders_db order_id
      in if order_index = - 1 then (Inl NotFound, orders_db)
         else
           (let order = orders_db ! nat order_index;
                saved =
                  (case image' of
                     None \<Rightarrow> Inr order
                   | Some img \<Rightarrow>
                       if filename img \<noteq> None \<and> filename img \<noteq> Some []
                       then (case save_upload_file e img order_id of
                               Inl err \<Rightarrow> Inl err
                             | Inr url \<Rightarrow> Inr (order\<lparr> o_image_url := url \<rparr>))
                       else Inr order)
            in case saved of
                 Inl err \<Rightarrow> (Inl err, orders_db)
               | Inr order \<Rightarrow>
                   (let order = order
                          \<lparr> o_name := name,
                            o_udid := udid,
                            o_status := status,
                            o_download_link :=
                              (if download_link \<noteq> None \<and> download_link \<noteq> Some []
                               then download_link else None),
                            o_price := Some (extract_price_from_name name) \<rparr>
                    in (Inr order, orders_db[nat order_index := order]))))"

text \<open>
  \<^verbatim>\<open>delete_order\<close> assigns the filtered list to \<^verbatim>\<open>orders_db\<close> before it compares
  the lengths, so the new value is returned on both paths.
\<close>

definition delete_order :: "order list \<Rightarrow> int \<Rightarrow> (http_error + unit) \<times> order list" where
  "delete_order orders_db order_id =
     (let initial_length = length orders_db;
          orders_db = filter (\<lambda>ord. o_id ord \<noteq> order_id) orders_db
      in if length orders_db = initial_length then (Inl NotFound, orders_db)
         else (Inr (), orders_db))"


section \<open>Sequences of requests\<close>

datatype request =
    Create env str str upload_file
  | Update env int str str str "str option" "upload_file option"
  | Delete int

fun handle :: "order list \<Rightarrow> request \<Rightarrow> order list" where
  "handle db (Create e name udid image') = snd (create_order e db name udid image')"
| "handle db (Update e order_id name udid status download_link image') =
     snd (update_order e db order_id name udid status download_link image')"
| "handle db (Delete order_id) = snd (delete_order db order_id)"

definition run :: "order list \<Rightarrow> request list \<Rightarrow> order list" where
  "run db reqs = foldl handle db reqs"


section \<open>Vocabulary of the specification\<close>

text \<open>
  The words of the specification of the price: position \<open>i\<close> of \<open>name\<close> holds a
  dollar sign followed by at least one decimal digit, and the run of digits that
  follows that dollar sign.
\<close>

definition price_token_at :: "str \<Rightarrow> nat \<Rightarrow> bool" where
  "price_token_at name i =
     (Suc i < length name \<and> name ! i = 0x24 \<and> isdigit (name ! Suc i))"

definition digit_run_after :: "str \<Rightarrow> nat \<Rightarrow> str" where
  "digit_run_after name i = takeWhile isdigit (drop (Suc i) name)"


text \<open>
  The 25 readings of \<^verbatim>\<open>time.time()\<close> that \<open>startup_event\<close> takes: no later
  reading is more than an hour after an earlier one.
\<close>

definition startup_within_hour :: "(int \<Rightarrow> real) \<Rightarrow> bool" where
  "startup_within_hour clock =
     (\<forall>i \<in> set [1..25]. \<forall>j \<in> set [1..25]. i < j \<longrightarrow> clock j - clock i \<le> 3600)"



text \<open>
  What the search compares: the lower-cased \<open>q\<close> is a contiguous part of the
  lower-cased name or of the lower-cased udid.
\<close>

definition occurs_in :: "'a list \<Rightarrow> 'a list \<Rightarrow> bool" where
  "occurs_in a b = (\<exists>pre post. b = pre @ a @ post)"

definition search_matches :: "str \<Rightarrow> order \<Rightarrow> bool" where
  "search_matches q ord =
     (occurs_in (lower q) (lower (o_name ord)) \<or> occurs_in (lower q) (lower (o_udid ord)))"

text \<open>
  A text without the capital sigma \<^verbatim>\<open>U+03A3\<close> and without \<^verbatim>\<open>U+0130\<close>: its
  lower case is taken code point by code point.
\<close>

definition context_free :: "str \<Rightarrow> bool" where
  "context_free s = (0x3A3 \<notin> set s \<and> 0x130 \<notin> set s)"

text \<open>
  The orders that a status argument and a search text select, in the words of the
  specification: a status argument selects by status when its lower case is one of the
  three known statuses, a search text when it is not empty.
\<close>

definition status_selects :: "str option \<Rightarrow> order \<Rightarrow> bool" where
  "status_selects status ord =
     (case status of
        None \<Rightarrow> True
      | Some s \<Rightarrow>
          if lower s \<in> set [lit ''pending'', lit ''approved'', lit ''rejected'']
          then lower (o_status ord) = lower s
          else True)"

definition search_selects :: "str option \<Rightarrow> order \<Rightarrow> bool" where
  "search_selects q ord =
     (case q of
        None \<Rightarrow> True
      | Some t \<Rightarrow> if t = [] then True else search_matches t ord)"



text \<open>The ids of the collection are 1, 2, ... in the order of the collection.\<close>

definition ids_consecutive :: "order list \<Rightarrow> bool" where
  "ids_consecutive db = (map o_id db = [1..int (length db)])"


section \<open>Sample data\<close>

text \<open>Orders, an environment, a clock and identifiers on which the theorems below are
  instantiated.\<close>

definition order1 :: order where
  "order1 = \<lparr> o_id = 1, o_name = lit ''Case $999'', o_udid = lit ''u1'',
              o_image_url = lit ''/images/a.png'', o_status = lit ''pending'',
              o_download_link = Some (lit ''http://x/1''), o_created_at = 10,
              o_price = Some (lit ''999'') \<rparr>"

definition order2 :: order where
  "order2 = \<lparr> o_id = 2, o_name = lit ''Widget'', o_udid = lit ''ABC-2'',
              o_image_url = lit ''/images/b.png'', o_status = lit ''Approved'',
              o_download_link = None, o_created_at = 20,
              o_price = None \<rparr>"

definition env1 :: env where
  "env1 = \<lparr> uuid_hex = lit ''0123456789abcdef0123456789abcdef'', write_ok = True,
            now = 30 \<rparr>"

definition order3 :: order where
  "order3 = \<lparr> o_id = 3, o_name = lit ''Gadget $5 or $60'', o_udid = lit ''xyz-abc'',
              o_image_url = lit ''/images/default.jpg'', o_status = lit ''rejected'',
              o_download_link = None, o_created_at = 10,
              o_price = None \<rparr>"

definition order4 :: order where
  "order4 = \<lparr> o_id = 4, o_name = [0x391, 0x3A3], o_udid = lit ''u4'',
              o_image_url = lit ''/images/default.jpg'', o_status = lit ''pending'',
              o_download_link = None, o_created_at = 40,
              o_price = None \<rparr>"

definition clock1 :: "int \<Rightarrow> real" where
  "clock1 i = 1700000000"

definition uuids1 :: "int \<Rightarrow> str" where
  "uuids1 i = lit ''0123456789abcdef0123456789abcdef''"

definition image1 :: upload_file where
  "image1 = \<lparr> filename = Some (lit ''a.png'') \<rparr>"



section \<open>Evaluation rules and auxiliary facts\<close>

lemmas lower_eval = lower_def to_lower_full_def lowercase_runs_def cased_def
  case_ignorable_def cased_ranges_def case_ignorable_ranges_def lit_def

lemmas price_eval = extract_price_from_name_def match_price_def isdigit_def
  decimal_digit_ranges_def lit_def


lemmas sample_defs = order1_def order2_def order3_def order4_def env1_def

lemmas list_eval = list_orders_def slice_def clamp_index_def sorted_reverse_def Let_def
  status_filter_def q_filter_def

lemma foldl_append_snoc: "foldl (\<lambda>db i. db @ [f i]) db xs = db @ map f xs"
  by (induction xs arbitrary: db) auto

lemma startup_event_eq:
  "startup_event clock uuids db = db @ map (dummy_order clock uuids) [1..25]"
  by (simp add: startup_event_def foldl_append_snoc)

lemma filter_id_unchanged:
  "order_id \<notin> o_id ` set db \<Longrightarrow> filter (\<lambda>ord. o_id ord \<noteq> order_id) db = db"
  by (induction db) auto

lemma filter_id_shorter:
  "order_id \<in> o_id ` set db \<Longrightarrow>
     length (filter (\<lambda>ord. o_id ord \<noteq> order_id) db) < length db"
  by (induction db) (auto simp: less_Suc_eq_le)

lemma find_enumerate:
  "find (\<lambda>(i, x). P x) (enumerate n xs) = Some (i, y) \<Longrightarrow>
     n \<le> i \<and> i - n < length xs \<and> xs ! (i - n) = y \<and> P y \<and> (\<forall>j < i - n. \<not> P (xs ! j))"
proof (induction xs arbitrary: n)
  case Nil
  then show ?case by simp
next
  case (Cons x xs)
  show ?case
  proof (cases "P x")
    case True
    with Cons.prems show ?thesis by simp
  next
    case False
    with Cons.prems have f: "find (\<lambda>(i, x). P x) (enumerate (Suc n) xs) = Some (i, y)"
      by simp
    from Cons.IH[OF f]
    have ih: "Suc n \<le> i" "i - Suc n < length xs" "xs ! (i - Suc n) = y" "P y"
      "\<forall>j < i - Suc n. \<not> P (xs ! j)" by auto
    have e: "i - n = Suc (i - Suc n)" using ih(1) by simp
    show ?thesis using ih False unfolding e by (auto simp: less_Suc_eq_0_disj)
  qed
qed

lemma find_enumerate_None:
  "find (\<lambda>(i, x). P x) (enumerate n xs) = None \<Longrightarrow> \<forall>x \<in> set xs. \<not> P x"
  by (induction xs arbitrary: n) (auto split: if_splits)

lemma order_index_of_found:
  assumes "order_index_of db order_id \<noteq> - 1"
  shows "nat (order_index_of db order_id) < length db"
    and "o_id (db ! nat (order_index_of db order_id)) = order_id"
    and "\<forall>j < nat (order_index_of db order_id). o_id (db ! j) \<noteq> order_id"
proof -
  from assms obtain i y
    where f: "find (\<lambda>(i, ord). o_id ord = order_id) (enumerate 0 db) = Some (i, y)"
      and ix: "order_index_of db order_id = int i"
    by (auto simp: order_index_of_def split: option.splits)
  from find_enumerate[OF f] ix
  show "nat (order_index_of db order_id) < length db"
    and "o_id (db ! nat (order_index_of db order_id)) = order_id"
    and "\<forall>j < nat (order_index_of db order_id). o_id (db ! j) \<noteq> order_id"
    by auto
qed

lemma order_index_of_missing:
  "order_index_of db order_id = - 1 \<Longrightarrow> order_id \<notin> o_id ` set db"
  using find_enumerate_None[of "\<lambda>ord. o_id ord = order_id" 0 db]
  by (auto simp: order_index_of_def split: option.splits prod.splits)

lemma find_first:
  "i < length xs \<Longrightarrow> P (xs ! i) \<Longrightarrow> \<forall>j < i. \<not> P (xs ! j) \<Longrightarrow> find P xs = Some (xs ! i)"
proof (induction xs arbitrary: i)
  case Nil
  then show ?case by simp
next
  case (Cons x xs)
  show ?case
  proof (cases i)
    case 0
    with Cons.prems show ?thesis by simp
  next
    case (Suc k)
    with Cons.prems have "\<not> P x" by auto
    moreover have "find P xs = Some (xs ! k)"
      using Cons.prems Suc by (intro Cons.IH) auto
    ultimately show ?thesis using Suc by simp
  qed
qed

text \<open>What a successful update returns and stores.\<close>

lemma update_order_success:
  assumes "fst (update_order e db order_id name udid status download_link img) = Inr r"
  shows "order_index_of db order_id \<noteq> - 1"
    and "snd (update_order e db order_id name udid status download_link img)
           = db[nat (order_index_of db order_id) := r]"
    and "o_id r = order_id"
    and "o_name r = name" and "o_udid r = udid" and "o_status r = status"
    and "o_download_link r =
           (if download_link \<noteq> None \<and> download_link \<noteq> Some [] then download_link else None)"
    and "o_price r = Some (extract_price_from_name name)"
    and "o_created_at r = o_created_at (db ! nat (order_index_of db order_id))"
proof -
  show nf: "order_index_of db order_id \<noteq> - 1"
    using assms by (auto simp: update_order_def)
  note ix = order_index_of_found[OF nf]
  show "snd (update_order e db order_id name udid status download_link img)
           = db[nat (order_index_of db order_id) := r]"
    using assms nf
    by (auto simp: update_order_def Let_def split: option.splits sum.splits if_splits)
  show "o_id r = order_id"
    using assms nf ix(2)
    by (auto simp: update_order_def Let_def split: option.splits sum.splits if_splits)
  show "o_name r = name" "o_udid r = udid" "o_status r = status"
    "o_price r = Some (extract_price_from_name name)"
    "o_download_link r =
           (if download_link \<noteq> None \<and> download_link \<noteq> Some [] then download_link else None)"
    "o_created_at r = o_created_at (db ! nat (order_index_of db order_id))"
    using assms nf
    by (auto simp: update_order_def Let_def split: option.splits sum.splits if_splits)
qed


section \<open>Authentication\<close>

text \<open>
  Claim C9. \<open>login_for_access_token\<close> returns the static token exactly when the user
  name and the password are both those of the one configured administrator, and fails
  with \<open>Unauthorized\<close> for every other pair; \<open>get_current_user\<close> accepts a token
  exactly when it is the static administrator token, and fails with \<open>Unauthorized\<close>
  for every other string.
\<close>

theorem auth_gate_exact:
  "(login_for_access_token username password
      = Inr \<lparr> access_token = lit ''fake-jwt-token-for-admin'', token_type = lit ''bearer'' \<rparr>)
     = (username = lit ''admin'' \<and> password = lit ''password123'')
   \<and> (login_for_access_token username password = Inl Unauthorized)
     = (\<not> (username = lit ''admin'' \<and> password = lit ''password123''))
   \<and> (get_current_user t = Inr (lit ''admin'')) = (t = lit ''fake-jwt-token-for-admin'')
   \<and> (get_current_user t = Inl Unauthorized) = (t \<noteq> lit ''fake-jwt-token-for-admin'')"
  by (simp add: login_for_access_token_def get_current_user_def ADMIN_USERNAME_def
      ADMIN_PASSWORD_def ADMIN_TOKEN_def)


theorem auth_gate_exact_witness:
  "login_for_access_token (lit ''admin'') (lit ''password123'')
     = Inr \<lparr> access_token = lit ''fake-jwt-token-for-admin'', token_type = lit ''bearer'' \<rparr>
   \<and> login_for_access_token (lit ''admin'') (lit ''Password123'') = Inl Unauthorized
   \<and> get_current_user (lit ''fake-jwt-token-for-admin'') = Inr (lit ''admin'')
   \<and> get_current_user (lit ''fake-jwt-token-for-Admin'') = Inl Unauthorized"
proof -
  note a = auth_gate_exact[of "lit ''admin''" "lit ''password123''" "lit ''fake-jwt-token-for-admin''"]
  note b = auth_gate_exact[of "lit ''admin''" "lit ''Password123''" "lit ''fake-jwt-token-for-Admin''"]
  have "login_for_access_token (lit ''admin'') (lit ''password123'')
     = Inr \<lparr> access_token = lit ''fake-jwt-token-for-admin'', token_type = lit ''bearer'' \<rparr>"
    using a by blast
  moreover have "get_current_user (lit ''fake-jwt-token-for-admin'') = Inr (lit ''admin'')"
    using a by blast
  moreover have "login_for_access_token (lit ''admin'') (lit ''Password123'') = Inl Unauthorized"
    using b by (simp add: lit_def)
  moreover have "get_current_user (lit ''fake-jwt-token-for-Admin'') = Inl Unauthorized"
    using b by (simp add: lit_def)
  ultimately show ?thesis by blast
qed

section \<open>Deleting an order\<close>

text \<open>
  Claim C8. When no record of the collection has the given id, \<open>delete_order\<close> fails
  with \<open>NotFound\<close> and the collection it leaves is the one it found, the same records
  in the same order. When some record has the id, it succeeds; afterwards no record has
  that id, and the records with any other id are all still there, in their order.
\<close>

theorem delete_order_spec:
  "(order_id \<notin> o_id ` set db \<longrightarrow> delete_order db order_id = (Inl NotFound, db))
   \<and> (order_id \<in> o_id ` set db \<longrightarrow>
        fst (delete_order db order_id) = Inr ()
        \<and> order_id \<notin> o_id ` set (snd (delete_order db order_id))
        \<and> subseq (snd (delete_order db order_id)) db
        \<and> filter (\<lambda>ord. o_id ord \<noteq> order_id) (snd (delete_order db order_id))
            = filter (\<lambda>ord. o_id ord \<noteq> order_id) db)"
proof (intro conjI impI)
  assume "order_id \<notin> o_id ` set db"
  then show "delete_order db order_id = (Inl NotFound, db)"
    by (simp add: delete_order_def filter_id_unchanged)
next
  assume a: "order_id \<in> o_id ` set db"
  from filter_id_shorter[OF a]
  have d: "delete_order db order_id = (Inr (), filter (\<lambda>ord. o_id ord \<noteq> order_id) db)"
    by (simp add: delete_order_def)
  show "fst (delete_order db order_id) = Inr ()" by (simp add: d)
  show "order_id \<notin> o_id ` set (snd (delete_order db order_id))" by (auto simp: d)
  show "subseq (snd (delete_order db order_id)) db" by (simp add: d)
  show "filter (\<lambda>ord. o_id ord \<noteq> order_id) (snd (delete_order db order_id))
            = filter (\<lambda>ord. o_id ord \<noteq> order_id) db" by (simp add: d)
qed

theorem delete_order_spec_witness:
  "delete_order [order1, order2] 7 = (Inl NotFound, [order1, order2])
   \<and> delete_order [order1, order2] 1 = (Inr (), [order2])"
proof -
  have a: "7 \<notin> o_id ` set [order1, order2]" by (simp add: order1_def order2_def)
  have b: "1 \<in> o_id ` set [order1, order2]" by (simp add: order1_def order2_def)
  have c: "snd (delete_order [order1, order2] 1) = [order2]"
    by (simp add: delete_order_def order1_def order2_def)
  from delete_order_spec[of 7 "[order1, order2]"] a
  have "delete_order [order1, order2] 7 = (Inl NotFound, [order1, order2])" by blast
  moreover from delete_order_spec[of 1 "[order1, order2]"] b
  have "fst (delete_order [order1, order2] 1) = Inr ()" by blast
  ultimately show ?thesis using c by (simp add: prod_eq_iff)
qed


section \<open>Updating an order\<close>

text \<open>
  Claim C10. When an update that supplies the empty string as \<open>download_link\<close>
  succeeds, the order it returns and stores has no download link, a later
  \<open>get_order\<close> of that id reads the same order, and the whole outcome is the one of
  the update that omits the field.
\<close>

theorem update_empty_download_link:
  assumes "fst (update_order e db order_id name udid status (Some []) img) = Inr r"
  shows "o_download_link r = None
       \<and> o_download_link (snd (update_order e db order_id name udid status (Some []) img)
                            ! nat (order_index_of db order_id)) = None
       \<and> get_order (snd (update_order e db order_id name udid status (Some []) img)) order_id
           = Inr (with_price r)
       \<and> update_order e db order_id name udid status (Some []) img
           = update_order e db order_id name udid status None img"
proof -
  note s = update_order_success[OF assms]
  note ix = order_index_of_found[OF s(1)]
  let ?i = "nat (order_index_of db order_id)"
  have dl: "o_download_link r = None" using s(7) by simp
  have st: "db[?i := r] ! ?i = r" using ix(1) by simp
  have "find (\<lambda>ord. o_id ord = order_id) (db[?i := r]) = Some (db[?i := r] ! ?i)"
    using ix s(3) by (intro find_first) (auto simp: nth_list_update)
  then have g: "get_order (db[?i := r]) order_id = Inr (with_price r)"
    by (simp add: get_order_def st)
  have eq: "update_order e db order_id name udid status (Some []) img
           = update_order e db order_id name udid status None img"
    by (simp add: update_order_def)
  show ?thesis
  proof (intro conjI)
    show "o_download_link r = None" by (rule dl)
    show "o_download_link (snd (update_order e db order_id name udid status (Some []) img)
                            ! nat (order_index_of db order_id)) = None"
      unfolding s(2) st by (rule dl)
    show "get_order (snd (update_order e db order_id name udid status (Some []) img)) order_id
           = Inr (with_price r)"
      unfolding s(2) by (rule g)
    show "update_order e db order_id name udid status (Some []) img
           = update_order e db order_id name udid status None img" by (rule eq)
  qed
qed

theorem update_empty_download_link_witness:
  "fst (update_order env1 [order2, order1] 1 (lit ''Case $999'') (lit ''u1'') (lit ''approved'') (Some []) None)
     = Inr (order1\<lparr> o_status := lit ''approved'', o_download_link := None \<rparr>)
   \<and> o_download_link
        (snd (update_order env1 [order2, order1] 1 (lit ''Case $999'') (lit ''u1'') (lit ''approved'') (Some []) None)
           ! 1) = None"
proof -
  have h: "fst (update_order env1 [order2, order1] 1 (lit ''Case $999'') (lit ''u1'') (lit ''approved'') (Some []) None)
     = Inr (order1\<lparr> o_status := lit ''approved'', o_download_link := None \<rparr>)"
    by (simp add: update_order_def Let_def order_index_of_def order1_def order2_def price_eval)
  have i: "nat (order_index_of [order2, order1] 1) = 1"
    by (simp add: order_index_of_def order1_def order2_def)
  note t = update_empty_download_link[OF h, unfolded i]
  show ?thesis using h t[THEN conjunct2, THEN conjunct1] by (rule conjI)
qed


section \<open>The price in a name\<close>

lemma price_token_at_Cons_Suc: "price_token_at (c # cs) (Suc i) = price_token_at cs i"
  by (simp add: price_token_at_def)

lemma match_price_token:
  "match_price s = (if price_token_at s 0 then Some (digit_run_after s 0) else None)"
proof (cases s)
  case Nil
  then show ?thesis by (simp add: match_price_def price_token_at_def)
next
  case (Cons c cs)
  then show ?thesis
    by (cases cs) (auto simp: match_price_def price_token_at_def digit_run_after_def)
qed

lemma search_price_none:
  "(\<forall>i. \<not> price_token_at name i) \<Longrightarrow> search_price name = None"
proof (induction name)
  case Nil
  then show ?case by (simp add: match_price_def)
next
  case (Cons c cs)
  from Cons.prems have "\<not> price_token_at (c # cs) 0" by blast
  moreover from Cons.prems have "\<forall>i. \<not> price_token_at cs i"
    using price_token_at_Cons_Suc by blast
  ultimately show ?case using Cons.IH by (simp add: match_price_token)
qed

lemma search_price_first:
  "price_token_at name i \<Longrightarrow> \<forall>j<i. \<not> price_token_at name j \<Longrightarrow>
     search_price name = Some (digit_run_after name i)"
proof (induction name arbitrary: i)
  case Nil
  then show ?case by (simp add: price_token_at_def)
next
  case (Cons c cs)
  show ?case
  proof (cases i)
    case 0
    with Cons.prems show ?thesis by (simp add: match_price_token)
  next
    case (Suc k)
    with Cons.prems have n0: "\<not> price_token_at (c # cs) 0" by blast
    have k: "price_token_at cs k" using Cons.prems(1) Suc by (simp add: price_token_at_Cons_Suc)
    have "\<forall>j<k. \<not> price_token_at cs j"
    proof (intro allI impI)
      fix j assume "j < k"
      then have "Suc j < i" using Suc by simp
      with Cons.prems(2) have "\<not> price_token_at (c # cs) (Suc j)" by blast
      then show "\<not> price_token_at cs j" by (simp add: price_token_at_Cons_Suc)
    qed
    from Cons.IH[OF k this] n0 show ?thesis
      by (simp add: match_price_token Suc digit_run_after_def)
  qed
qed

lemma search_price_None_iff:
  "search_price name = None \<longleftrightarrow> (\<forall>i. \<not> price_token_at name i)"
proof
  assume n: "search_price name = None"
  show "\<forall>i. \<not> price_token_at name i"
  proof (rule ccontr)
    assume "\<not> (\<forall>i. \<not> price_token_at name i)"
    then have ex: "\<exists>i. price_token_at name i" by blast
    define k where "k = (LEAST i. price_token_at name i)"
    have "price_token_at name k" unfolding k_def using ex by (rule LeastI_ex)
    moreover have "\<forall>j<k. \<not> price_token_at name j"
      unfolding k_def using not_less_Least by blast
    ultimately have "search_price name = Some (digit_run_after name k)"
      by (rule search_price_first)
    with n show False by simp
  qed
next
  assume "\<forall>i. \<not> price_token_at name i"
  then show "search_price name = None" by (rule search_price_none)
qed

text \<open>
  Claim C3. For every name, \<open>extract_price_from_name\<close> returns the run of digits
  after the first dollar sign that is followed by a digit, and \<^verbatim>\<open>N/A\<close> when the
  name has no dollar sign followed by a digit; on \<^verbatim>\<open>Widget $250\<close> it returns
  \<^verbatim>\<open>250\<close> and on \<^verbatim>\<open>Widget\<close> it returns \<^verbatim>\<open>N/A\<close>.
\<close>

theorem extract_price_first_token:
  "(\<forall>i. price_token_at name i \<and> (\<forall>j<i. \<not> price_token_at name j) \<longrightarrow>
        extract_price_from_name name = digit_run_after name i)
   \<and> ((\<forall>i. \<not> price_token_at name i) \<longrightarrow> extract_price_from_name name = lit ''N/A'')
   \<and> extract_price_from_name (lit ''Widget $250'') = lit ''250''
   \<and> extract_price_from_name (lit ''Widget'') = lit ''N/A''"
proof (intro conjI allI impI)
  fix i assume "price_token_at name i \<and> (\<forall>j<i. \<not> price_token_at name j)"
  then have "search_price name = Some (digit_run_after name i)"
    using search_price_first by blast
  then show "extract_price_from_name name = digit_run_after name i"
    by (simp add: extract_price_from_name_def)
next
  assume "\<forall>i. \<not> price_token_at name i"
  then show "extract_price_from_name name = lit ''N/A''"
    by (simp add: extract_price_from_name_def search_price_none)
next
  show "extract_price_from_name (lit ''Widget $250'') = lit ''250''"
    by (simp add: extract_price_from_name_def match_price_def isdigit_def decimal_digit_ranges_def lit_def)
  show "extract_price_from_name (lit ''Widget'') = lit ''N/A''"
    by (simp add: extract_price_from_name_def match_price_def isdigit_def decimal_digit_ranges_def lit_def)
qed

theorem extract_price_first_token_witness:
  "price_token_at (lit ''a$b $12x $345'') 4
   \<and> extract_price_from_name (lit ''a$b $12x $345'') = lit ''12''
   \<and> extract_price_from_name (lit ''no price $ here'') = lit ''N/A''"
proof -
  have a: "price_token_at (lit ''a$b $12x $345'') 4"
    by (simp add: price_token_at_def isdigit_def decimal_digit_ranges_def lit_def)
  have b: "\<forall>j<4. \<not> price_token_at (lit ''a$b $12x $345'') j"
  proof (intro allI impI)
    fix j :: nat
    assume "j < 4"
    then consider "j = 0" | "j = 1" | "j = 2" | "j = 3" by linarith
    then show "\<not> price_token_at (lit ''a$b $12x $345'') j"
      by cases (simp_all add: price_token_at_def isdigit_def decimal_digit_ranges_def lit_def)
  qed
  have c: "\<forall>i. \<not> price_token_at (lit ''no price $ here'') i"
    by (simp add: search_price_None_iff[symmetric] match_price_def isdigit_def decimal_digit_ranges_def lit_def)
  have d: "digit_run_after (lit ''a$b $12x $345'') 4 = lit ''12''"
    by (simp add: digit_run_after_def isdigit_def decimal_digit_ranges_def lit_def)
  from extract_price_first_token[of "lit ''a$b $12x $345''"] a b d
  have "extract_price_from_name (lit ''a$b $12x $345'') = lit ''12''" by metis
  moreover from extract_price_first_token[of "lit ''no price $ here''"] c
  have "extract_price_from_name (lit ''no price $ here'') = lit ''N/A''" by blast
  ultimately show ?thesis using a by blast
qed


section \<open>Slicing and sorting\<close>

lemma slice_nonneg:
  assumes "0 \<le> start" and "0 \<le> len"
  shows "slice xs start (start + len) = take (nat len) (drop (nat start) xs)"
proof (cases "start < int (length xs)")
  case True
  show ?thesis
  proof (cases "start + len \<le> int (length xs)")
    case le: True
    have "nat (start + len - start) = nat len" by simp
    with assms True le show ?thesis
      by (simp add: slice_def clamp_index_def Let_def min_def)
  next
    case gt: False
    have "length (drop (nat start) xs) \<le> nat len" using gt assms by simp
    then have "take (nat len) (drop (nat start) xs) = drop (nat start) xs" by simp
    moreover have "nat (int (length xs) - start) = length (drop (nat start) xs)"
      using assms by simp
    ultimately show ?thesis using assms True gt
      by (simp add: slice_def clamp_index_def Let_def min_def)
  qed
next
  case False
  then have "drop (nat start) xs = []" using assms by simp
  with assms False show ?thesis
    by (simp add: slice_def clamp_index_def Let_def min_def)
qed

lemma set_slice_subset: "set (slice xs a b) \<subseteq> set xs"
proof -
  have "set (slice xs a b) \<subseteq> set (drop (nat (clamp_index (int (length xs)) a)) xs)"
    unfolding slice_def Let_def by (rule set_take_subset)
  also have "\<dots> \<subseteq> set xs" by (rule set_drop_subset)
  finally show ?thesis .
qed

lemma mset_sorted_reverse: "mset (sorted_reverse key xs) = mset xs"
  by (simp add: sorted_reverse_def)

lemma set_sorted_reverse: "set (sorted_reverse key xs) = set xs"
  by (simp add: sorted_reverse_def)

lemma length_sorted_reverse: "length (sorted_reverse key xs) = length xs"
  by (simp add: sorted_reverse_def)

lemma sorted_reverse_descending:
  "sorted_wrt (\<lambda>a b. key a \<ge> key b) (sorted_reverse key xs)"
proof -
  have "sorted (map key (sort_key key (rev xs)))" by simp
  then have "sorted_wrt (\<lambda>a b. key a \<le> key b) (sort_key key (rev xs))"
    by (simp add: sorted_map)
  then show ?thesis by (simp add: sorted_reverse_def sorted_wrt_rev)
qed

lemma sorted_reverse_stable:
  "filter (\<lambda>x. key x = k) (sorted_reverse key xs) = filter (\<lambda>x. key x = k) xs"
proof -
  have "filter (\<lambda>x. key x = k) (sorted_reverse key xs)
          = rev (filter (\<lambda>x. key x = k) (sort_key key (rev xs)))"
    by (simp add: sorted_reverse_def rev_filter)
  also have "\<dots> = rev (filter (\<lambda>x. key x = k) (rev xs))"
    by (simp only: sort_key_stable)
  also have "\<dots> = filter (\<lambda>x. key x = k) xs"
    by (simp add: rev_filter)
  finally show ?thesis .
qed

lemma sorted_reverse_id:
  assumes "sorted_wrt (\<lambda>a b. key a \<ge> key b) xs"
  shows "sorted_reverse key xs = xs"
proof -
  from assms have "sorted_wrt (\<lambda>a b. key a \<le> key b) (rev xs)"
    by (simp add: sorted_wrt_rev)
  then have "sorted (map key (rev xs))" by (simp add: sorted_map)
  then have "sort_key key (rev xs) = rev xs" by (rule sort_key_id_if_sorted)
  then show ?thesis by (simp add: sorted_reverse_def)
qed

lemma with_price_fields [simp]:
  "o_id (with_price x) = o_id x" "o_name (with_price x) = o_name x"
  "o_udid (with_price x) = o_udid x" "o_status (with_price x) = o_status x"
  "o_created_at (with_price x) = o_created_at x"
  "o_download_link (with_price x) = o_download_link x"
  "o_image_url (with_price x) = o_image_url x"
  "o_price (with_price x) = Some (extract_price_from_name (o_name x))"
  by (simp_all add: with_price_def)

lemma list_orders_items:
  "r_items (list_orders db page page_size status q) =
     map with_price (slice (sorted_reverse o_created_at (q_filter q (status_filter status db)))
                       ((page - 1) * page_size) ((page - 1) * page_size + page_size))"
  and list_orders_total:
  "r_total (list_orders db page page_size status q) =
     int (length (q_filter q (status_filter status db)))"
  by (simp_all add: list_orders_def Let_def)

lemma filters_None [simp]: "status_filter None db = db" "q_filter None db = db"
  by (simp_all add: status_filter_def q_filter_def)

section \<open>Listing without filters\<close>

lemma items_first_page:
  assumes "int (length db) \<le> page_size"
  shows "r_items (list_orders db 1 page_size None None)
           = map with_price (sorted_reverse o_created_at db)"
proof -
  let ?s = "sorted_reverse o_created_at db"
  have ps: "0 \<le> page_size" using assms by simp
  have "slice ?s 0 (0 + page_size) = take (nat page_size) (drop (nat 0) ?s)"
    using ps by (intro slice_nonneg) simp_all
  also have "\<dots> = ?s" using assms by (simp add: length_sorted_reverse)
  finally show ?thesis by (simp add: list_orders_items)
qed

text \<open>
  Claim C6. With no status filter, no search text, page 1 and a page size of at least
  the size of the collection, \<open>list_orders\<close> returns every order exactly once (with
  its price re-extracted), newest first, and the orders of one \<open>created_at\<close> appear
  in the order in which the collection holds them.
\<close>

theorem list_orders_all_sorted:
  assumes "int (length db) \<le> page_size"
  shows "mset (r_items (list_orders db 1 page_size None None)) = mset (map with_price db)
       \<and> sorted_wrt (\<lambda>a b. o_created_at a \<ge> o_created_at b)
            (r_items (list_orders db 1 page_size None None))
       \<and> (\<forall>t. filter (\<lambda>ord. o_created_at ord = t) (r_items (list_orders db 1 page_size None None))
               = map with_price (filter (\<lambda>ord. o_created_at ord = t) db))
       \<and> r_total (list_orders db 1 page_size None None) = int (length db)"
proof -
  let ?s = "sorted_reverse o_created_at db"
  note it = items_first_page[OF assms]
  have a: "mset (map with_price ?s) = mset (map with_price db)"
    by (simp add: mset_sorted_reverse)
  have b: "sorted_wrt (\<lambda>a b. o_created_at a \<ge> o_created_at b) (map with_price ?s)"
    using sorted_reverse_descending[of o_created_at db] by (simp add: sorted_wrt_map)
  have c: "filter (\<lambda>ord. o_created_at ord = t) (map with_price ?s)
               = map with_price (filter (\<lambda>ord. o_created_at ord = t) db)" for t
    using sorted_reverse_stable[of o_created_at t db] by (simp add: filter_map comp_def)
  show ?thesis unfolding it using a b c by (simp add: list_orders_total)
qed

lemma sorted_reverse_sample:
  "sorted_reverse o_created_at [order1, order2, order3] = [order2, order1, order3]"
  by (simp add: sorted_reverse_def sample_defs)

theorem list_orders_all_sorted_witness:
  "mset (r_items (list_orders [order1, order2, order3] 1 3 None None))
     = mset (map with_price [order1, order2, order3])
   \<and> sorted_wrt (\<lambda>a b. o_created_at a \<ge> o_created_at b)
        (r_items (list_orders [order1, order2, order3] 1 3 None None))
   \<and> filter (\<lambda>ord. o_created_at ord = 10)
        (r_items (list_orders [order1, order2, order3] 1 3 None None))
       = map with_price [order1, order3]
   \<and> r_total (list_orders [order1, order2, order3] 1 3 None None) = 3"
proof -
  have h: "int (length [order1, order2, order3]) \<le> 3" by simp
  note t = list_orders_all_sorted[OF h]
  have f: "filter (\<lambda>ord. o_created_at ord = 10) [order1, order2, order3] = [order1, order3]"
    by (simp add: sample_defs)
  from t have "filter (\<lambda>ord. o_created_at ord = 10)
        (r_items (list_orders [order1, order2, order3] 1 3 None None))
       = map with_price (filter (\<lambda>ord. o_created_at ord = 10) [order1, order2, order3])"
    by blast
  then have c: "filter (\<lambda>ord. o_created_at ord = 10)
        (r_items (list_orders [order1, order2, order3] 1 3 None None))
       = map with_price [order1, order3]"
    unfolding f .
  from t have d: "r_total (list_orders [order1, order2, order3] 1 3 None None) = 3"
    by simp
  from t c d show ?thesis by blast
qed


lemma upto_1_25:
  "[1..25] = [1, 2, 3, 4, 5, 6, 7, 8, 9, 10, 11, 12, 13, 14, 15, 16, 17, 18, 19, 20,
              21, 22, 23, 24, 25 :: int]"
  by (simp add: upto.simps)

lemma upto_21_25: "[21..25] = [21, 22, 23, 24, 25 :: int]"
  by (simp add: upto.simps)

lemma length_startup_event: "length (startup_event clock uuids []) = 25"
  by (simp add: startup_event_eq)

lemma startup_event_sorted:
  assumes "startup_within_hour clock"
  shows "sorted_wrt (\<lambda>a b. o_created_at a \<ge> o_created_at b) (startup_event clock uuids [])"
proof -
  have "sorted_wrt (\<lambda>i j. clock j - real_of_int (j * 3600) \<le> clock i - real_of_int (i * 3600))
          [1..25]"
  proof (rule sorted_wrt_mono_rel[OF _ sorted_wrt_upto])
    fix i j :: int
    assume ij: "i \<in> set [1..25]" "j \<in> set [1..25]" "i < j"
    with assms have "clock j - clock i \<le> 3600"
      unfolding startup_within_hour_def by blast
    moreover have "real_of_int (i * 3600) + 3600 \<le> real_of_int (j * 3600)"
    proof -
      have "i * 3600 + 3600 \<le> j * 3600" using ij(3) by simp
      then have "real_of_int (i * 3600 + 3600) \<le> real_of_int (j * 3600)"
        by (simp only: of_int_le_iff)
      then show ?thesis by simp
    qed
    ultimately show "clock j - real_of_int (j * 3600) \<le> clock i - real_of_int (i * 3600)"
      by linarith
  qed
  then show ?thesis
    by (simp add: startup_event_eq sorted_wrt_map dummy_order_def)
qed

section \<open>The two filters\<close>

lemma str_in_occurs_in: "str_in a b \<longleftrightarrow> occurs_in a b"
proof -
  have "str_in a b \<longleftrightarrow> sublist a b"
    by (induction b) (simp_all add: sublist_Cons_right)
  then show ?thesis by (simp add: sublist_def occurs_in_def)
qed

lemma search_matches_code:
  "search_matches q ord
     = (str_in (lower q) (lower (o_name ord)) \<or> str_in (lower q) (lower (o_udid ord)))"
  by (simp add: search_matches_def str_in_occurs_in)

lemma q_filter_Some:
  "q \<noteq> [] \<Longrightarrow> q_filter (Some q) db = filter (search_matches q) db"
proof -
  have "search_matches q
          = (\<lambda>ord. str_in (lower q) (lower (o_name ord)) \<or> str_in (lower q) (lower (o_udid ord)))"
    by (rule ext) (simp add: search_matches_code)
  then show "q \<noteq> [] \<Longrightarrow> q_filter (Some q) db = filter (search_matches q) db"
    by (simp add: q_filter_def Let_def)
qed

lemma lower_Nil [simp]: "lower [] = []"
  by (simp add: lower_def)

lemma known_status_nonempty:
  "lower s \<in> set [lit ''pending'', lit ''approved'', lit ''rejected''] \<Longrightarrow> s \<noteq> []"
  by (auto simp: lit_def)

lemma status_filter_selects: "status_filter status db = filter (status_selects status) db"
proof (cases status)
  case None
  then show ?thesis by (simp add: status_filter_def status_selects_def)
next
  case (Some s)
  show ?thesis
  proof (cases "lower s \<in> set [lit ''pending'', lit ''approved'', lit ''rejected'']")
    case True
    then have "status_selects (Some s) = (\<lambda>ord. lower (o_status ord) = lower s)"
      by (intro ext) (simp add: status_selects_def)
    with known_status_nonempty[OF True] True Some show ?thesis
      by (simp add: status_filter_def)
  next
    case False
    then have "status_selects (Some s) = (\<lambda>ord. True)"
      by (intro ext) (simp add: status_selects_def)
    with False Some show ?thesis by (simp add: status_filter_def)
  qed
qed

lemma q_filter_selects: "q_filter q db = filter (search_selects q) db"
proof (cases q)
  case None
  then show ?thesis by (simp add: q_filter_def search_selects_def)
next
  case (Some t)
  show ?thesis
  proof (cases "t = []")
    case True
    with Some show ?thesis by (simp add: q_filter_def search_selects_def)
  next
    case False
    then have "search_selects (Some t) = search_matches t"
      by (intro ext) (simp add: search_selects_def)
    with Some q_filter_Some[OF False, of db] show ?thesis by simp
  qed
qed

lemma filters_select:
  "q_filter q (status_filter status db)
     = filter (\<lambda>ord. status_selects status ord \<and> search_selects q ord) db"
  by (simp add: status_filter_selects q_filter_selects)


lemma search_matches_with_price [simp]:
  "search_matches q (with_price x) = search_matches q x"
  by (simp add: search_matches_def)

lemma list_orders_cong:
  "q_filter q (status_filter st db) = q_filter q' (status_filter st' db') \<Longrightarrow>
     list_orders db page page_size st q = list_orders db' page page_size st' q'"
  by (simp add: list_orders_def)

lemma items_from_filtered:
  assumes "it \<in> set (r_items (list_orders db page page_size st q))"
  obtains x where "it = with_price x" and "x \<in> set (q_filter q (status_filter st db))"
proof -
  have "set (slice (sorted_reverse o_created_at (q_filter q (status_filter st db)))
              ((page - 1) * page_size) ((page - 1) * page_size + page_size))
          \<subseteq> set (q_filter q (status_filter st db))"
    using set_slice_subset[of "sorted_reverse o_created_at (q_filter q (status_filter st db))"]
    by (simp add: set_sorted_reverse)
  with assms that show ?thesis unfolding list_orders_items by auto
qed



lemma context_free_append [simp]:
  "context_free (a @ b) \<longleftrightarrow> context_free a \<and> context_free b"
  by (auto simp: context_free_def)




section \<open>Filtering by status and searching\<close>

text \<open>
  Claim C4. When the lower-cased status argument is one of \<^verbatim>\<open>pending\<close>,
  \<^verbatim>\<open>approved\<close>, \<^verbatim>\<open>rejected\<close>, listing with it is listing the orders whose
  lower-cased status equals the lower-cased argument, so that every returned item has
  that status; for any other argument the result is the one without a status filter.
\<close>

theorem list_orders_status:
  "(lower s \<in> set [lit ''pending'', lit ''approved'', lit ''rejected''] \<longrightarrow>
      list_orders db page page_size (Some s) q
        = list_orders (filter (\<lambda>ord. lower (o_status ord) = lower s) db) page page_size None q
      \<and> (\<forall>it \<in> set (r_items (list_orders db page page_size (Some s) q)).
            lower (o_status it) = lower s))
   \<and> (lower s \<notin> set [lit ''pending'', lit ''approved'', lit ''rejected''] \<longrightarrow>
        list_orders db page page_size (Some s) q = list_orders db page page_size None q)"
proof (intro conjI impI)
  assume k: "lower s \<in> set [lit ''pending'', lit ''approved'', lit ''rejected'']"
  then have ne: "s \<noteq> []" by (rule known_status_nonempty)
  from k ne have sf: "status_filter (Some s) db = filter (\<lambda>ord. lower (o_status ord) = lower s) db"
    by (simp add: status_filter_def)
  show "list_orders db page page_size (Some s) q
        = list_orders (filter (\<lambda>ord. lower (o_status ord) = lower s) db) page page_size None q"
    by (rule list_orders_cong) (simp add: sf)
  have "set (q_filter q (status_filter (Some s) db)) \<subseteq> set (status_filter (Some s) db)"
    by (auto simp: q_filter_def Let_def split: option.splits)
  then have sub: "set (q_filter q (status_filter (Some s) db))
                   \<subseteq> {x. lower (o_status x) = lower s}"
    unfolding sf by auto
  show "\<forall>it \<in> set (r_items (list_orders db page page_size (Some s) q)).
            lower (o_status it) = lower s"
  proof
    fix it assume "it \<in> set (r_items (list_orders db page page_size (Some s) q))"
    then obtain x where "it = with_price x" "x \<in> set (q_filter q (status_filter (Some s) db))"
      by (rule items_from_filtered)
    with sub show "lower (o_status it) = lower s" by auto
  qed
next
  assume "lower s \<notin> set [lit ''pending'', lit ''approved'', lit ''rejected'']"
  then have "status_filter (Some s) db = db" by (simp add: status_filter_def)
  then show "list_orders db page page_size (Some s) q = list_orders db page page_size None q"
    by (intro list_orders_cong) simp
qed

theorem list_orders_status_witness:
  "r_items (list_orders [order1, order2, order3] 1 12 (Some (lit ''APPROVED'')) None)
     = [with_price order2]
   \<and> list_orders [order1, order2, order3] 1 12 (Some (lit ''shipped'')) None
     = list_orders [order1, order2, order3] 1 12 None None"
proof -
  have k: "lower (lit ''APPROVED'') \<in> set [lit ''pending'', lit ''approved'', lit ''rejected'']"
    by (simp add: lower_eval)
  have u: "lower (lit ''shipped'') \<notin> set [lit ''pending'', lit ''approved'', lit ''rejected'']"
    by (simp add: lower_eval)
  have f: "filter (\<lambda>ord. lower (o_status ord) = lower (lit ''APPROVED'')) [order1, order2, order3]
             = [order2]"
    by (simp add: lower_eval sample_defs)
  from list_orders_status[of "lit ''APPROVED''" "[order1, order2, order3]" 1 12 None] k
  have "list_orders [order1, order2, order3] 1 12 (Some (lit ''APPROVED'')) None
          = list_orders (filter (\<lambda>ord. lower (o_status ord) = lower (lit ''APPROVED''))
                           [order1, order2, order3]) 1 12 None None"
    by blast
  then have a: "r_items (list_orders [order1, order2, order3] 1 12 (Some (lit ''APPROVED'')) None)
     = [with_price order2]"
    unfolding f by (simp add: list_eval)
  from list_orders_status[of "lit ''shipped''" "[order1, order2, order3]" 1 12 None] u
  have b: "list_orders [order1, order2, order3] 1 12 (Some (lit ''shipped'')) None
     = list_orders [order1, order2, order3] 1 12 None None"
    by blast
  from a b show ?thesis by (rule conjI)
qed





section \<open>Pagination\<close>

lemma sorted_orders_selected:
  "mset (sorted_orders db status q)
     = mset (filter (\<lambda>ord. status_selects status ord \<and> search_selects q ord) db)"
  by (simp add: sorted_orders_def mset_sorted_reverse filters_select)

lemma sorted_orders_descending:
  "sorted_wrt (\<lambda>a b. o_created_at a \<ge> o_created_at b) (sorted_orders db status q)"
  unfolding sorted_orders_def by (rule sorted_reverse_descending)

lemma sorted_orders_stable:
  "filter (\<lambda>ord. o_created_at ord = t) (sorted_orders db status q)
     = filter (\<lambda>ord. o_created_at ord = t)
         (filter (\<lambda>ord. status_selects status ord \<and> search_selects q ord) db)"
  by (simp add: sorted_orders_def sorted_reverse_stable filters_select)

text \<open>
  Claim C7. The filtered and sorted sequence holds exactly the orders that the status
  argument and the search text select, each once, newest first, orders of one
  \<open>created_at\<close> in the order of the collection. For \<open>page\<close> and \<open>page_size\<close> of at
  least 1 the items are its elements at the positions from \<open>(page - 1) * page_size\<close>
  up to, and excluding, \<open>(page - 1) * page_size + page_size\<close>, and the total is the
  number of selected orders; a page that starts at or after the end is empty. On the 25
  seeded orders, page 3 of size 10 holds the 5 elements that follow the first 20 of the
  sorted sequence, with total 25; they are the dummy orders 21 to 25 when the start-up
  readings of the clock lie within an hour.
\<close>

theorem list_orders_pagination:
  "mset (sorted_orders db status q)
     = mset (filter (\<lambda>ord. status_selects status ord \<and> search_selects q ord) db)
   \<and> sorted_wrt (\<lambda>a b. o_created_at a \<ge> o_created_at b) (sorted_orders db status q)
   \<and> (\<forall>t. filter (\<lambda>ord. o_created_at ord = t) (sorted_orders db status q)
          = filter (\<lambda>ord. o_created_at ord = t)
              (filter (\<lambda>ord. status_selects status ord \<and> search_selects q ord) db))
   \<and> (1 \<le> page \<and> 1 \<le> page_size \<longrightarrow>
      r_items (list_orders db page page_size status q)
        = map with_price
            (take (nat page_size) (drop (nat ((page - 1) * page_size))
               (sorted_orders db status q)))
      \<and> r_total (list_orders db page page_size status q)
          = int (length (filter (\<lambda>ord. status_selects status ord \<and> search_selects q ord) db))
      \<and> (int (length (filter (\<lambda>ord. status_selects status ord \<and> search_selects q ord) db))
            \<le> (page - 1) * page_size \<longrightarrow>
            r_items (list_orders db page page_size status q) = []))
   \<and> r_items (list_orders (startup_event clock uuids []) 3 10 None None)
       = map with_price (drop 20 (sorted_orders (startup_event clock uuids []) None None))
   \<and> length (r_items (list_orders (startup_event clock uuids []) 3 10 None None)) = 5
   \<and> r_total (list_orders (startup_event clock uuids []) 3 10 None None) = 25
   \<and> (startup_within_hour clock \<longrightarrow>
        r_items (list_orders (startup_event clock uuids []) 3 10 None None)
          = map (\<lambda>i. with_price (dummy_order clock uuids i)) [21..25])"
proof -
  have gen: "r_items (list_orders db page page_size status q)
        = map with_price
            (take (nat page_size) (drop (nat ((page - 1) * page_size))
               (sorted_orders db status q)))"
    if "1 \<le> page" "1 \<le> page_size" for db page page_size status q
  proof -
    have "0 \<le> (page - 1) * page_size" using that by simp
    moreover have "0 \<le> page_size" using that by simp
    ultimately show ?thesis by (simp add: list_orders_items slice_nonneg sorted_orders_def)
  qed
  have tot: "r_total (list_orders db page page_size status q)
          = int (length (filter (\<lambda>ord. status_selects status ord \<and> search_selects q ord) db))"
    by (simp add: list_orders_total filters_select)
  have beyond: "r_items (list_orders db page page_size status q) = []"
    if "1 \<le> page" "1 \<le> page_size"
      "int (length (filter (\<lambda>ord. status_selects status ord \<and> search_selects q ord) db))
         \<le> (page - 1) * page_size"
  proof -
    have "length (sorted_orders db status q) \<le> nat ((page - 1) * page_size)"
      using that(3) by (simp add: sorted_orders_def length_sorted_reverse filters_select)
    then show ?thesis using gen[OF that(1,2)] by simp
  qed
  let ?seed = "startup_event clock uuids []"
  have so: "sorted_orders ?seed None None = sorted_reverse o_created_at ?seed"
    by (simp add: sorted_orders_def)
  have s1: "r_items (list_orders ?seed 3 10 None None)
       = map with_price (drop 20 (sorted_orders ?seed None None))"
  proof -
    have "take 10 (drop 20 (sorted_orders ?seed None None))
            = drop 20 (sorted_orders ?seed None None)"
      by (simp add: so length_sorted_reverse length_startup_event)
    then show ?thesis using gen[of 3 10 ?seed None None] by simp
  qed
  have s2: "length (r_items (list_orders ?seed 3 10 None None)) = 5"
    unfolding s1 by (simp add: so length_sorted_reverse length_startup_event)
  have s3: "r_total (list_orders ?seed 3 10 None None) = 25"
    by (simp add: list_orders_total length_startup_event)
  have s4: "r_items (list_orders ?seed 3 10 None None)
          = map (\<lambda>i. with_price (dummy_order clock uuids i)) [21..25]"
    if "startup_within_hour clock"
  proof -
    have "sorted_orders ?seed None None = ?seed"
      unfolding so using startup_event_sorted[OF that] by (rule sorted_reverse_id)
    moreover have "drop 20 ?seed = map (dummy_order clock uuids) [21..25]"
      unfolding startup_event_eq upto_1_25 upto_21_25 by simp
    ultimately show ?thesis unfolding s1 by simp
  qed
  note g = gen[of page page_size db status q]
  note a = sorted_orders_selected[of db status q]
  note b = sorted_orders_descending[of db status q]
  have c: "\<forall>t. filter (\<lambda>ord. o_created_at ord = t) (sorted_orders db status q)
          = filter (\<lambda>ord. o_created_at ord = t)
              (filter (\<lambda>ord. status_selects status ord \<and> search_selects q ord) db)"
    using sorted_orders_stable by blast
  show ?thesis using a b c g tot beyond s1 s2 s3 s4 by blast
qed

theorem list_orders_pagination_witness:
  "startup_within_hour clock1
   \<and> map o_id (r_items (list_orders (startup_event clock1 uuids1 []) 3 10 None None))
       = [21, 22, 23, 24, 25]
   \<and> r_total (list_orders (startup_event clock1 uuids1 []) 3 10 None None) = 25
   \<and> r_items (list_orders [order1, order2, order3] 1 2 None None)
       = [with_price order2, with_price order1]
   \<and> r_items (list_orders [order1, order2, order3] 2 2 None None) = [with_price order3]
   \<and> r_items (list_orders [order1, order2, order3] 3 2 None None) = []
   \<and> r_items (list_orders [order1, order2, order3] 1 1 (Some (lit ''REJECTED'')) (Some (lit ''abc'')))
       = [with_price order3]
   \<and> r_total (list_orders [order1, order2, order3] 1 1 (Some (lit ''REJECTED'')) (Some (lit ''abc'')))
       = 1"
proof -
  have w: "startup_within_hour clock1"
    by (simp add: startup_within_hour_def clock1_def)
  note s = list_orders_pagination[of "[]" None None 3 10 clock1 uuids1]
  from s w have "r_items (list_orders (startup_event clock1 uuids1 []) 3 10 None None)
          = map (\<lambda>i. with_price (dummy_order clock1 uuids1 i)) [21..25]" by blast
  then have a: "map o_id (r_items (list_orders (startup_event clock1 uuids1 []) 3 10 None None))
       = [21, 22, 23, 24, 25]"
    by (simp add: upto_21_25 dummy_order_def)
  from s have b: "r_total (list_orders (startup_event clock1 uuids1 []) 3 10 None None) = 25"
    by blast
  have so: "sorted_orders [order1, order2, order3] None None = [order2, order1, order3]"
    by (simp add: sorted_orders_def sorted_reverse_def sample_defs)
  note p1 = list_orders_pagination[of "[order1, order2, order3]" None None 1 2 clock1 uuids1]
  have "(1::int) \<le> 1 \<and> (1::int) \<le> 2" by simp
  with p1 have "r_items (list_orders [order1, order2, order3] 1 2 None None)
        = map with_price
            (take (nat 2) (drop (nat ((1 - 1) * 2)) (sorted_orders [order1, order2, order3] None None)))"
    by blast
  then have c1: "r_items (list_orders [order1, order2, order3] 1 2 None None)
                   = [with_price order2, with_price order1]"
    unfolding so by simp
  note p2 = list_orders_pagination[of "[order1, order2, order3]" None None 2 2 clock1 uuids1]
  have "(1::int) \<le> 2 \<and> (1::int) \<le> 2" by simp
  with p2 have "r_items (list_orders [order1, order2, order3] 2 2 None None)
        = map with_price
            (take (nat 2) (drop (nat ((2 - 1) * 2)) (sorted_orders [order1, order2, order3] None None)))"
    by blast
  then have c2: "r_items (list_orders [order1, order2, order3] 2 2 None None) = [with_price order3]"
    unfolding so by simp
  note p3 = list_orders_pagination[of "[order1, order2, order3]" None None 3 2 clock1 uuids1]
  have "(1::int) \<le> 3 \<and> (1::int) \<le> 2" by simp
  moreover have "int (length (filter (\<lambda>ord. status_selects None ord \<and> search_selects None ord)
                    [order1, order2, order3])) \<le> (3 - 1) * 2"
    by (simp add: status_selects_def search_selects_def)
  ultimately have d: "r_items (list_orders [order1, order2, order3] 3 2 None None) = []"
    using p3 by blast
  let ?st = "Some (lit ''REJECTED'')" and ?q = "Some (lit ''abc'')"
  have sel: "filter (\<lambda>ord. status_selects ?st ord \<and> search_selects ?q ord) [order1, order2, order3]
               = [order3]"
    by (simp add: status_selects_def search_selects_def search_matches_code lower_eval sample_defs)
  have sof: "sorted_orders [order1, order2, order3] ?st ?q = [order3]"
    by (simp add: sorted_orders_def list_eval lower_eval sample_defs)
  note pf = list_orders_pagination[of "[order1, order2, order3]" ?st ?q 1 1 clock1 uuids1]
  have one: "(1::int) \<le> 1 \<and> (1::int) \<le> 1" by simp
  with pf have "r_items (list_orders [order1, order2, order3] 1 1 ?st ?q)
        = map with_price
            (take (nat 1) (drop (nat ((1 - 1) * 1)) (sorted_orders [order1, order2, order3] ?st ?q)))"
    by blast
  then have e1: "r_items (list_orders [order1, order2, order3] 1 1 ?st ?q) = [with_price order3]"
    unfolding sof by simp
  from pf one have "r_total (list_orders [order1, order2, order3] 1 1 ?st ?q)
      = int (length (filter (\<lambda>ord. status_selects ?st ord \<and> search_selects ?q ord)
                       [order1, order2, order3]))"
    by blast
  then have e2: "r_total (list_orders [order1, order2, order3] 1 1 ?st ?q) = 1"
    unfolding sel by simp
  from w a b c1 c2 d e1 e2 show ?thesis by blast
qed


section \<open>The stored price\<close>

lemma create_order_success:
  assumes "fst (create_order e db name udid img) = Inr r"
  shows "snd (create_order e db name udid img) = db @ [r]"
    and "o_id r = int (length db) + 1"
    and "o_name r = name"
    and "o_price r = Some (extract_price_from_name name)"
  using assms by (auto simp: create_order_def Let_def split: sum.splits)

lemma create_order_failure:
  "fst (create_order e db name udid img) = Inl err \<Longrightarrow>
     snd (create_order e db name udid img) = db"
  by (auto simp: create_order_def Let_def split: sum.splits)

lemma update_order_failure:
  "fst (update_order e db order_id name udid status download_link img) = Inl err \<Longrightarrow>
     snd (update_order e db order_id name udid status download_link img) = db"
  by (auto simp: update_order_def Let_def split: sum.splits option.splits if_splits)







section \<open>Identifiers after a deletion\<close>

lemma handle_ids_consecutive:
  assumes "ids_consecutive db" and "\<forall>order_id. req \<noteq> Delete order_id"
  shows "ids_consecutive (handle db req)"
proof (cases req)
  case (Create e name udid img)
  show ?thesis
  proof (cases "fst (create_order e db name udid img)")
    case (Inl err)
    then show ?thesis using assms Create by (simp add: create_order_failure)
  next
    case (Inr r)
    note s = create_order_success[OF Inr]
    have "[1..int (length db) + 1] = [1..int (length db)] @ [int (length db) + 1]"
      by (simp add: upto_rec2)
    then show ?thesis using assms(1) Create s(1,2)
      by (simp add: ids_consecutive_def add.commute)
  qed
next
  case (Update e order_id name udid status download_link img)
  show ?thesis
  proof (cases "fst (update_order e db order_id name udid status download_link img)")
    case (Inl err)
    then show ?thesis using assms Update by (simp add: update_order_failure)
  next
    case (Inr r)
    note s = update_order_success[OF Inr]
    note ix = order_index_of_found[OF s(1)]
    let ?i = "nat (order_index_of db order_id)"
    have "map o_id (db[?i := r]) = (map o_id db)[?i := map o_id db ! ?i]"
      using ix s(3) by (simp add: map_update)
    also have "\<dots> = map o_id db" by (rule list_update_id)
    finally show ?thesis using assms(1) Update s(2) by (simp add: ids_consecutive_def)
  qed
next
  case (Delete order_id)
  with assms(2) show ?thesis by simp
qed

lemma ids_unique_without_delete:
  assumes "ids_consecutive db" and "\<forall>order_id. Delete order_id \<notin> set reqs"
  shows "distinct (map o_id (run db reqs))"
proof -
  have "ids_consecutive (foldl handle db reqs)" using assms
  proof (induction reqs arbitrary: db)
    case Nil
    then show ?case by simp
  next
    case (Cons req reqs)
    have "ids_consecutive (handle db req)"
      using Cons.prems by (intro handle_ids_consecutive) auto
    then show ?case using Cons.IH Cons.prems(2) by simp
  qed
  then have "map o_id (run db reqs) = [1..int (length (run db reqs))]"
    by (simp add: run_def ids_consecutive_def)
  then show ?thesis using distinct_upto by metis
qed

lemma startup_ids_consecutive: "ids_consecutive (startup_event clock uuids [])"
  by (simp add: ids_consecutive_def startup_event_eq dummy_order_def comp_def)

text \<open>
  Claim C1 says that the ids of the collection stay pairwise different. From the seeded
  state, deleting order 1 and creating an order gives the new order the id 25, which
  the seeded order 25 still has: \<open>create_order\<close> takes the length of the collection
  plus one, which is a fresh id only as long as nothing has been deleted
  (\<open>ids_unique_without_delete\<close>).
\<close>

theorem id_reused_after_delete:
  "map o_id (run (startup_event clock1 uuids1 [])
               [Delete 1, Create env1 (lit ''Case $999'') (lit ''u1'') image1])
     = [2, 3, 4, 5, 6, 7, 8, 9, 10, 11, 12, 13, 14, 15, 16, 17, 18, 19, 20, 21, 22, 23,
        24, 25, 25]
   \<and> \<not> distinct (map o_id (run (startup_event clock1 uuids1 [])
               [Delete 1, Create env1 (lit ''Case $999'') (lit ''u1'') image1]))"
proof -
  have d: "map o_id (snd (delete_order (startup_event clock1 uuids1 []) 1))
             = [2, 3, 4, 5, 6, 7, 8, 9, 10, 11, 12, 13, 14, 15, 16, 17, 18, 19, 20, 21, 22,
                23, 24, 25]"
    by (simp add: delete_order_def Let_def startup_event_eq upto_1_25 dummy_order_def)
  then have l: "length (snd (delete_order (startup_event clock1 uuids1 []) 1)) = 24"
    using length_map[of o_id "snd (delete_order (startup_event clock1 uuids1 []) 1)"]
    by simp
  have c: "map o_id (snd (create_order env1 db (lit ''Case $999'') (lit ''u1'') image1))
             = map o_id db @ [int (length db) + 1]" for db
    by (simp add: create_order_def save_upload_file_def Let_def env1_def)
  have "map o_id (run (startup_event clock1 uuids1 [])
               [Delete 1, Create env1 (lit ''Case $999'') (lit ''u1'') image1])
     = [2, 3, 4, 5, 6, 7, 8, 9, 10, 11, 12, 13, 14, 15, 16, 17, 18, 19, 20, 21, 22, 23,
        24, 25, 25]"
    by (simp add: run_def c d l)
  then show ?thesis by simp
qed

end
